theory Spec2Isabelle
  imports Complex_Main
begin

section \<open>Data model (types.ts)\<close>

text \<open>
  A JavaScript \<open>number\<close> that holds a coordinate, a price or a distance is modelled as a
  \<open>real\<close>, one that holds an identifier as an \<open>int\<close>: the arithmetic of the model is
  exact, and the rounding of IEEE doubles is not modelled. Where a rounding error changes
  what the code returns (the NaN of \<open>haversineDistance\<close>), the operations involved are
  modelled a second time, with NaN as \<open>None\<close>. A string is a list of 8-bit characters.
  An exception that leaves a function of the service is the result \<open>Inl TypeError\<close>.
\<close>

datatype error = TypeError

datatype StockStatus = InStock | LowStock | OutOfStock

record Location =
  lat :: real
  lon :: real

text \<open>
  The type \<open>Omit<Pharmacy, 'distance' | 'price' | 'priceUnit' | 'stock' | 'isBestOption'>\<close>
  of the source; the field \<open>id\<close> is called \<open>ident\<close> here. A pharmacy is passed where a
  \<open>Location\<close> is expected, so the record extends \<open>Location\<close>.
\<close>

record PharmacyBase = Location +
  ident :: int
  name :: string
  address :: string
  phone :: string

record Pharmacy = PharmacyBase +
  distance :: real
  price :: real
  priceUnit :: string
  stock :: StockStatus
  isBestOption :: bool

record PharmacyOwner =
  owner_name :: string
  owner_phone :: string
  owner_address :: string

text \<open>
  \<open>item_stock\<close> is \<open>None\<close> when the property is absent or falsy: the items of
  \<open>parsePriceSlip\<close> carry no usable stock value.
\<close>

record InventoryItem =
  medicineName :: string
  item_price :: real
  item_stock :: "StockStatus option"

record PharmacyStockInfo =
  pharmacyId :: int
  info_price :: real
  info_stock :: StockStatus

text \<open>
  The inventory is a plain object: the map holds its own properties, as \<open>JSON.parse\<close>
  creates them and \<open>JSON.stringify\<close> writes them.
\<close>

type_synonym GlobalInventory = "string \<rightharpoonup> PharmacyStockInfo list"

text \<open>
  The two keys of \<open>localStorage\<close> the service uses. \<open>None\<close> is a key that was never
  written; a stored value is taken to be well-formed JSON of the expected shape.
\<close>

record LocalStorage =
  item_globalPharmacyInventory :: "GlobalInventory option"
  item_dynamicPharmacies :: "Pharmacy list option"

section \<open>Library functions of the host language\<close>

text \<open>
  \<open>String.prototype.toLowerCase\<close> on the ASCII letters; every other character is left
  as it is.
\<close>

definition lowerChar :: "char \<Rightarrow> char" where
  "lowerChar c =
     (let n = (of_char c :: nat) in if 65 \<le> n \<and> n \<le> 90 then char_of (n + 32) else c)"

definition toLowerCase :: "string \<Rightarrow> string" where
  "toLowerCase s = map lowerChar s"

text \<open>
  The property names every plain object inherits from \<open>Object.prototype\<close>. Each of them
  reads as an object that is truthy and is not an array: \<open>({})["constructor"]\<close> is the
  function \<open>Object\<close>.
\<close>

definition objectPrototypeKeys :: "string list" where
  "objectPrototypeKeys =
     [''constructor'', ''__proto__'', ''hasOwnProperty'', ''isPrototypeOf'',
      ''propertyIsEnumerable'', ''toLocaleString'', ''toString'', ''valueOf'',
      ''__defineGetter__'', ''__defineSetter__'', ''__lookupGetter__'', ''__lookupSetter__'']"

text \<open>
  The value of \<open>globalInventory[key]\<close>: the array of an own property, an inherited object,
  or \<open>undefined\<close>.
\<close>

datatype propertyValue = Undefined | Entries "PharmacyStockInfo list" | Inherited

definition getProperty :: "GlobalInventory \<Rightarrow> string \<Rightarrow> propertyValue" where
  "getProperty globalInventory key =
     (case globalInventory key of
        Some entries \<Rightarrow> Entries entries
      | None \<Rightarrow> if key \<in> set objectPrototypeKeys then Inherited else Undefined)"

text \<open>\<open>Array.prototype.findIndex\<close>; the result \<open>-1\<close> is \<open>None\<close>.\<close>

fun findIndex :: "('a \<Rightarrow> bool) \<Rightarrow> 'a list \<Rightarrow> nat option" where
  "findIndex P [] = None"
| "findIndex P (x # xs) = (if P x then Some 0 else map_option Suc (findIndex P xs))"

text \<open>\<open>new Map(entries)\<close>: a later entry with the same key replaces an earlier one.\<close>

definition newMap :: "('k \<times> 'v) list \<Rightarrow> ('k \<rightharpoonup> 'v)" where
  "newMap entries = foldl (\<lambda>m (k, v). m(k \<mapsto> v)) Map.empty entries"

text \<open>\<open>Math.atan2(y, x)\<close> on the reals.\<close>

definition Math_atan2 :: "real \<Rightarrow> real \<Rightarrow> real" where
  "Math_atan2 y x =
     (if 0 < x then arctan (y / x)
      else if x < 0 then (if 0 \<le> y then arctan (y / x) + pi else arctan (y / x) - pi)
      else if 0 < y then pi / 2
      else if y < 0 then - (pi / 2)
      else 0)"

text \<open>
  \<open>parseFloat(x.toFixed(1))\<close>: the nearest multiple of one tenth, the larger one in
  magnitude on a tie.
\<close>

definition toFixed1 :: "real \<Rightarrow> real" where
  "toFixed1 x =
     (if x < 0 then - (real_of_int \<lfloor>10 * (- x) + 1 / 2\<rfloor> / 10)
      else real_of_int \<lfloor>10 * x + 1 / 2\<rfloor> / 10)"

text \<open>\<open>Math.sqrt\<close> with its NaN (\<open>None\<close>): the square root of a negative number.\<close>

definition Math_sqrt :: "real \<Rightarrow> real option" where
  "Math_sqrt x = (if x < 0 then None else Some (sqrt x))"

text \<open>
  \<open>x == y\<close> on two numbers of which either may be NaN (\<open>None\<close>): NaN is equal to no
  number, itself included.
\<close>

definition numberEquals :: "real option \<Rightarrow> real option \<Rightarrow> bool" where
  "numberEquals x y =
     (case x of
        None \<Rightarrow> False
      | Some u \<Rightarrow> (case y of None \<Rightarrow> False | Some v \<Rightarrow> u = v))"

section \<open>Inventory database (pharmacyService.ts)\<close>

definition getGlobalInventory :: "LocalStorage \<Rightarrow> GlobalInventory" where
  "getGlobalInventory st =
     (case item_globalPharmacyInventory st of None \<Rightarrow> Map.empty | Some inventory \<Rightarrow> inventory)"

definition saveGlobalInventory :: "LocalStorage \<Rightarrow> GlobalInventory \<Rightarrow> LocalStorage" where
  "saveGlobalInventory st inventory = st\<lparr>item_globalPharmacyInventory := Some inventory\<rparr>"

text \<open>
  Lines 45 to 53 of \<open>updateGlobalInventory\<close>: the array under the medicine key after
  one item has been written into it.
\<close>

definition upsertEntries ::
  "int \<Rightarrow> InventoryItem \<Rightarrow> PharmacyStockInfo list \<Rightarrow> PharmacyStockInfo list" where
  "upsertEntries pid item entries =
     (let pharmacyEntryIndex = findIndex (\<lambda>p. pharmacyId p = pid) entries;
          stockValue = (case item_stock item of None \<Rightarrow> InStock | Some s \<Rightarrow> s)
      in case pharmacyEntryIndex of
           Some i \<Rightarrow>
             entries[i := (entries ! i)\<lparr>info_price := item_price item, info_stock := stockValue\<rparr>]
         | None \<Rightarrow>
             entries @ [\<lparr>pharmacyId = pid, info_price = item_price item, info_stock = stockValue\<rparr>])"

text \<open>
  The body of the \<open>forEach\<close> for one item. An \<open>undefined\<close> property is falsy and is
  replaced by the empty array (lines 42 to 44); an inherited object is truthy, stays, and
  has no method \<open>findIndex\<close>, so that line 45 throws.
\<close>

definition upsertItem :: "int \<Rightarrow> GlobalInventory \<Rightarrow> InventoryItem \<Rightarrow> error + GlobalInventory" where
  "upsertItem pid globalInventory item =
     (let medicineKey = toLowerCase (medicineName item)
      in case getProperty globalInventory medicineKey of
           Undefined \<Rightarrow> Inr (globalInventory(medicineKey \<mapsto> upsertEntries pid item []))
         | Entries entries \<Rightarrow>
             Inr (globalInventory(medicineKey \<mapsto> upsertEntries pid item entries))
         | Inherited \<Rightarrow> Inl TypeError)"

text \<open>\<open>items.forEach\<close>: an exception ends the loop.\<close>

fun forEachUpsert :: "int \<Rightarrow> InventoryItem list \<Rightarrow> GlobalInventory \<Rightarrow> error + GlobalInventory" where
  "forEachUpsert pid [] globalInventory = Inr globalInventory"
| "forEachUpsert pid (item # items) globalInventory =
     (case upsertItem pid globalInventory item of
        Inl e \<Rightarrow> Inl e
      | Inr updated \<Rightarrow> forEachUpsert pid items updated)"

text \<open>
  The result is the storage after the call, or the exception; after an exception the
  storage is the one before the call, since nothing has been saved.
\<close>

definition updateGlobalInventory ::
  "LocalStorage \<Rightarrow> int \<Rightarrow> InventoryItem list \<Rightarrow> error + LocalStorage" where
  "updateGlobalInventory st pid items =
     (case forEachUpsert pid items (getGlobalInventory st) of
        Inl e \<Rightarrow> Inl e
      | Inr globalInventory \<Rightarrow> Inr (saveGlobalInventory st globalInventory))"

definition updateStockStatusInGlobalInventory ::
  "LocalStorage \<Rightarrow> int \<Rightarrow> string \<Rightarrow> StockStatus \<Rightarrow> error + LocalStorage" where
  "updateStockStatusInGlobalInventory st pid medName newStock =
     (let globalInventory = getGlobalInventory st;
          medicineKey = toLowerCase medName
      in case getProperty globalInventory medicineKey of
           Undefined \<Rightarrow> Inr st
         | Inherited \<Rightarrow> Inl TypeError
         | Entries entries \<Rightarrow>
             (case findIndex (\<lambda>p. pharmacyId p = pid) entries of
                None \<Rightarrow> Inr st
              | Some i \<Rightarrow>
                  Inr (saveGlobalInventory st
                    (globalInventory(medicineKey \<mapsto>
                       entries[i := (entries ! i)\<lparr>info_stock := newStock\<rparr>])))))"

definition deleteFromGlobalInventory ::
  "LocalStorage \<Rightarrow> int \<Rightarrow> string \<Rightarrow> error + LocalStorage" where
  "deleteFromGlobalInventory st pid medName =
     (let globalInventory = getGlobalInventory st;
          medicineKey = toLowerCase medName
      in case getProperty globalInventory medicineKey of
           Undefined \<Rightarrow> Inr (saveGlobalInventory st globalInventory)
         | Inherited \<Rightarrow> Inl TypeError
         | Entries entries \<Rightarrow>
             (let remaining = filter (\<lambda>p. pharmacyId p \<noteq> pid) entries
              in if length remaining = 0
                 then Inr (saveGlobalInventory st (globalInventory(medicineKey := None)))
                 else Inr (saveGlobalInventory st (globalInventory(medicineKey \<mapsto> remaining)))))"

text \<open>\<open>globalInventory[medicineKey] || []\<close>: only \<open>undefined\<close> is falsy here.\<close>

definition getPharmaciesForMedicine :: "LocalStorage \<Rightarrow> string \<Rightarrow> propertyValue" where
  "getPharmaciesForMedicine st medName =
     (case getProperty (getGlobalInventory st) (toLowerCase medName) of
        Undefined \<Rightarrow> Entries []
      | Entries entries \<Rightarrow> Entries entries
      | Inherited \<Rightarrow> Inherited)"

section \<open>Pharmacy database (pharmacyService.ts)\<close>

definition getDynamicPharmacies :: "LocalStorage \<Rightarrow> Pharmacy list" where
  "getDynamicPharmacies st = (case item_dynamicPharmacies st of None \<Rightarrow> [] | Some ps \<Rightarrow> ps)"

definition saveDynamicPharmacies :: "LocalStorage \<Rightarrow> Pharmacy list \<Rightarrow> LocalStorage" where
  "saveDynamicPharmacies st pharmacies = st\<lparr>item_dynamicPharmacies := Some pharmacies\<rparr>"

definition mkBase :: "int \<Rightarrow> string \<Rightarrow> string \<Rightarrow> string \<Rightarrow> real \<Rightarrow> real \<Rightarrow> PharmacyBase" where
  "mkBase i n a ph la lo = \<lparr>lat = la, lon = lo, ident = i, name = n, address = a, phone = ph\<rparr>"

definition VERIFIED_PHARMACIES_IN_BANGALORE :: "PharmacyBase list" where
  "VERIFIED_PHARMACIES_IN_BANGALORE =
   [mkBase 21 ''Apollo Pharmacy'' ''Mysore Road, Kengeri Satellite Town'' ''080-2848-1122'' 12.9189 77.4856,
    mkBase 22 ''Medplus Pharmacy'' ''Kengeri Main Rd, Opposite Kengeri Bus Terminal'' ''080-2848-3344'' 12.9155 77.4808,
    mkBase 30 ''Sri Maruthi Pharma'' ''1st Main Road, Kengeri Upanagara'' ''080-2848-5566'' 12.9213 77.4842,
    mkBase 31 ''HealthFirst Pharmacy'' ''Kommaghatta Main Rd, Kengeri Hobli'' ''080-2848-7788'' 12.9252 77.4759,
    mkBase 23 ''Apollo Pharmacy'' ''Uttarahalli Main Rd, Chikkalasandra'' ''080-2673-5050'' 12.9077 77.5451,
    mkBase 24 ''Sri Sai Medical & General Stores'' ''Subramanyapura Main Road'' ''080-2639-1212'' 12.9015 77.5490,
    mkBase 32 ''MedPlus Pharmacy'' ''Dr Vishnuvardhan Rd, AGS Layout'' ''080-2639-4455'' 12.9058 77.5401,
    mkBase 33 ''Jan Aushadhi Kendra'' ''Padmanabhanagar, Near Uttarahalli'' ''080-2639-8899'' 12.9125 77.5523,
    mkBase 25 ''Apollo Pharmacy'' ''Near RR Nagar Arch, Mysore Road'' ''080-2860-9090'' 12.9265 77.5188,
    mkBase 26 ''Medplus Pharmacy'' ''8th Cross, BEML Layout, RR Nagar'' ''080-2860-7070'' 12.9303 77.5102,
    mkBase 27 ''Dava Discount'' ''Ideal Homes Township, RR Nagar'' ''080-2861-1234'' 12.9331 77.5145,
    mkBase 34 ''Apollo Pharmacy - BEML Layout'' ''9th Main Rd, BEML Layout, RR Nagar'' ''080-2860-3030'' 12.9298 77.5113,
    mkBase 18 ''Apollo Pharmacy'' ''24th Main Rd, Banashankari 2nd Stage'' ''080-2671-5555'' 12.9251 77.5469,
    mkBase 28 ''Wellness Forever'' ''Outer Ring Rd, Banashankari 3rd Stage'' ''080-2679-8899'' 12.9157 77.5571,
    mkBase 29 ''MedPlus Pharmacy'' ''Kathriguppe Main Rd, Banashankari 3rd Stage'' ''080-2672-2200'' 12.9105 77.5603,
    mkBase 36 ''Sri Guru Medicals'' ''Near BDA Complex, BSK 2nd Stage'' ''080-2671-8888'' 12.9285 77.5504,
    mkBase 37 ''Vivek Pharma'' ''Kadirenahalli Cross, Banashankari'' ''080-2671-9999'' 12.9193 77.5620,
    mkBase 1 ''Apollo Pharmacy - Jayanagar'' ''Jayanagar 9th Block, Bangalore'' ''080-2663-0919'' 12.9248 77.5843,
    mkBase 2 ''Wellness Forever - Koramangala'' ''Koramangala 4th Block, Bangalore'' ''080-4110-2222'' 12.9345 77.6264,
    mkBase 3 ''MedPlus Pharmacy - Indiranagar'' ''Indiranagar, 100 Feet Rd, Bangalore'' ''080-4092-7575'' 12.9784 77.6408]"

text \<open>The object \<open>{ id, name, address, phone, lat, lon }\<close> built from a record that has these fields.\<close>

definition baseOf :: "'a PharmacyBase_scheme \<Rightarrow> PharmacyBase" where
  "baseOf p = mkBase (ident p) (name p) (address p) (phone p) (lat p) (lon p)"

definition getCombinedPharmacies :: "LocalStorage \<Rightarrow> PharmacyBase list" where
  "getCombinedPharmacies st =
     (let dynamicPharmacies = getDynamicPharmacies st;
          verifiedIds = set (map ident VERIFIED_PHARMACIES_IN_BANGALORE);
          uniqueDynamicPharmacies = filter (\<lambda>p. ident p \<notin> verifiedIds) dynamicPharmacies;
          baseVerified = map baseOf VERIFIED_PHARMACIES_IN_BANGALORE;
          baseDynamic = map baseOf uniqueDynamicPharmacies
      in baseVerified @ baseDynamic)"

text \<open>
  \<open>Math.max(...dynamic ids, ...verified ids, 1000)\<close>, computed as a fold that starts
  from the last argument.
\<close>

definition maxId :: "Pharmacy list \<Rightarrow> int" where
  "maxId dynamicPharmacies =
     fold max (map ident dynamicPharmacies @ map ident VERIFIED_PHARMACIES_IN_BANGALORE) 1000"

definition registerOrGetPharmacy ::
  "LocalStorage \<Rightarrow> PharmacyOwner \<Rightarrow> Location \<Rightarrow> PharmacyBase \<times> LocalStorage" where
  "registerOrGetPharmacy st details location =
     (let allPharmacies = getCombinedPharmacies st
      in case find (\<lambda>p. toLowerCase (name p) = toLowerCase (owner_name details)) allPharmacies of
           Some existingPharmacy \<Rightarrow> (existingPharmacy, st)
         | None \<Rightarrow>
             (let dynamicPharmacies = getDynamicPharmacies st;
                  newPharmacy =
                    \<lparr>lat = lat location, lon = lon location,
                     ident = maxId dynamicPharmacies + 1,
                     name = owner_name details,
                     address = owner_address details,
                     phone = owner_phone details,
                     distance = 0, price = 0, priceUnit = [],
                     stock = OutOfStock, isBestOption = False\<rparr>
              in (baseOf newPharmacy,
                  saveDynamicPharmacies st (dynamicPharmacies @ [newPharmacy]))))"

section \<open>Search (pharmacyService.ts)\<close>

definition haversineDistance :: "'a Location_scheme \<Rightarrow> 'b Location_scheme \<Rightarrow> real" where
  "haversineDistance loc1 loc2 =
     (let R = 6371;
          dLat = (lat loc2 - lat loc1) * pi / 180;
          dLon = (lon loc2 - lon loc1) * pi / 180;
          a = sin (dLat / 2) * sin (dLat / 2) +
              cos (lat loc1 * pi / 180) * cos (lat loc2 * pi / 180) *
              sin (dLon / 2) * sin (dLon / 2);
          c = 2 * Math_atan2 (sqrt a) (sqrt (1 - a))
      in R * c)"

text \<open>Step 2 of \<open>findNearbyPharmacies\<close>: the callback of \<open>allPharmacies.map\<close>.\<close>

definition withDetails ::
  "'a Location_scheme \<Rightarrow> PharmacyStockInfo list \<Rightarrow> PharmacyBase \<Rightarrow> Pharmacy" where
  "withDetails userLocation pharmaciesWithStock pharmacy =
     (let stockedPharmacyIds = set (map pharmacyId pharmaciesWithStock);
          priceMap = newMap (map (\<lambda>p. (pharmacyId p, info_price p)) pharmaciesWithStock);
          stockMap = newMap (map (\<lambda>p. (pharmacyId p, info_stock p)) pharmaciesWithStock);
          hasEntry = (ident pharmacy \<in> stockedPharmacyIds)
      in \<lparr>lat = lat pharmacy, lon = lon pharmacy, ident = ident pharmacy,
          name = name pharmacy, address = address pharmacy, phone = phone pharmacy,
          distance = toFixed1 (haversineDistance userLocation pharmacy),
          price = (if hasEntry then the (priceMap (ident pharmacy)) else 0),
          priceUnit = (if hasEntry then ''per strip'' else ''-''),
          stock = (if hasEntry then the (stockMap (ident pharmacy)) else OutOfStock),
          isBestOption = False\<rparr>)"

text \<open>Step 4: one round of the \<open>forEach\<close> that maintains \<open>bestOption\<close> (\<open>null\<close> is \<open>None\<close>).\<close>

definition bestStep :: "Pharmacy option \<Rightarrow> Pharmacy \<Rightarrow> Pharmacy option" where
  "bestStep bestOption p =
     (case bestOption of
        None \<Rightarrow> Some p
      | Some b \<Rightarrow>
          if distance p < distance b \<and> price p < price b + 10 then Some p
          else if price p < price b \<and> distance p < distance b + 2 then Some p
          else Some b)"

definition determineBestOption :: "Pharmacy list \<Rightarrow> Pharmacy option" where
  "determineBestOption results = foldl bestStep None results"

text \<open>Lines 275 to 280: the flag is set on the first result that has the winner's id.\<close>

definition markBestOption :: "Pharmacy list \<Rightarrow> Pharmacy list" where
  "markBestOption results =
     (case determineBestOption results of
        None \<Rightarrow> results
      | Some bestOption \<Rightarrow>
          (case findIndex (\<lambda>p. ident p = ident bestOption) results of
             None \<Rightarrow> results
           | Some bestOptionIndex \<Rightarrow>
               results[bestOptionIndex := (results ! bestOptionIndex)\<lparr>isBestOption := True\<rparr>]))"

text \<open>
  Steps 1 to 3 of \<open>findNearbyPharmacies\<close>: the array \<open>results\<close> before the best
  option is flagged. \<open>Array.prototype.sort\<close> is stable, as \<open>sort_key\<close> is.
\<close>

definition searchResults ::
  "'a Location_scheme \<Rightarrow> PharmacyStockInfo list \<Rightarrow> PharmacyBase list \<Rightarrow> Pharmacy list" where
  "searchResults userLocation pharmaciesWithStock allPharmacies =
     (let allPharmaciesWithDetails = map (withDetails userLocation pharmaciesWithStock) allPharmacies;
          nearbyPharmacies = sort_key distance allPharmaciesWithDetails;
          availablePharmacies = filter (\<lambda>p. stock p = InStock) nearbyPharmacies
      in take 10 availablePharmacies)"

text \<open>
  The value the promise of \<open>findNearbyPharmacies\<close> resolves to, from the storage at the
  time the timer fires. An inherited object has no method \<open>map\<close>: line 234 throws inside
  the timer callback, and the promise is never resolved (\<open>Inl TypeError\<close>).
\<close>

definition findNearbyPharmacies ::
  "LocalStorage \<Rightarrow> 'a Location_scheme \<Rightarrow> string \<Rightarrow> error + Pharmacy list" where
  "findNearbyPharmacies st userLocation medName =
     (case getPharmaciesForMedicine st medName of
        Entries pharmaciesWithStock \<Rightarrow>
          Inr (markBestOption
                 (searchResults userLocation pharmaciesWithStock (getCombinedPharmacies st)))
      | _ \<Rightarrow> Inl TypeError)"

section \<open>The haversine formula\<close>

text \<open>
  The great-circle distance on a sphere of radius \<open>r\<close> in its textbook form, with the
  inverse sine.
\<close>

definition radians :: "real \<Rightarrow> real" where
  "radians d = d * pi / 180"

definition haversineFormula :: "real \<Rightarrow> 'a Location_scheme \<Rightarrow> 'b Location_scheme \<Rightarrow> real" where
  "haversineFormula r p q =
     2 * r * arcsin (sqrt ((sin ((radians (lat q) - radians (lat p)) / 2))\<^sup>2 +
       cos (radians (lat p)) * cos (radians (lat q)) *
       (sin ((radians (lon q) - radians (lon p)) / 2))\<^sup>2))"

section \<open>The distance with NaN\<close>

text \<open>
  Lines 212 to 217 of \<open>haversineDistance\<close>: the value of the constant \<open>a\<close>, in exact
  arithmetic.
\<close>

definition haversineA :: "'a Location_scheme \<Rightarrow> 'b Location_scheme \<Rightarrow> real" where
  "haversineA loc1 loc2 =
     (let dLat = (lat loc2 - lat loc1) * pi / 180;
          dLon = (lon loc2 - lon loc1) * pi / 180
      in sin (dLat / 2) * sin (dLat / 2) +
         cos (lat loc1 * pi / 180) * cos (lat loc2 * pi / 180) *
         sin (dLon / 2) * sin (dLon / 2))"

text \<open>
  Lines 218 and 219 of \<open>haversineDistance\<close> on a value of \<open>a\<close>, with the NaN of the two
  square roots: \<open>Math.atan2\<close> and the two multiplications give NaN on a NaN operand.
  Nothing before line 218 clamps \<open>a\<close> to the interval from 0 to 1.
\<close>

definition haversineFromA :: "real \<Rightarrow> real option" where
  "haversineFromA a =
     (case Math_sqrt a of
        None \<Rightarrow> None
      | Some y \<Rightarrow>
          (case Math_sqrt (1 - a) of
             None \<Rightarrow> None
           | Some x \<Rightarrow> (let R = 6371; c = 2 * Math_atan2 y x in Some (R * c))))"

section \<open>The selection rule as the specification words it\<close>

definition replacesBest :: "Pharmacy \<Rightarrow> Pharmacy \<Rightarrow> bool" where
  "replacesBest best p \<longleftrightarrow>
     (distance p < distance best \<and> price p < price best + 10) \<or>
     (price p < price best \<and> distance p < distance best + 2)"

fun selectBestSpec :: "Pharmacy list \<Rightarrow> Pharmacy option" where
  "selectBestSpec [] = None"
| "selectBestSpec (first # rest) =
     Some (foldl (\<lambda>best p. if replacesBest best p then p else best) first rest)"

text \<open>The variant of the pass that knows rule (b) only.\<close>

definition bestStepB :: "Pharmacy option \<Rightarrow> Pharmacy \<Rightarrow> Pharmacy option" where
  "bestStepB bestOption p =
     (case bestOption of
        None \<Rightarrow> Some p
      | Some b \<Rightarrow>
          if price p < price b \<and> distance p < distance b + 2 then Some p
          else Some b)"

definition determineBestOptionB :: "Pharmacy list \<Rightarrow> Pharmacy option" where
  "determineBestOptionB results = foldl bestStepB None results"

text \<open>A search result with the given identifier, distance and price, in stock and not flagged.\<close>

definition mkResult :: "int \<Rightarrow> real \<Rightarrow> real \<Rightarrow> Pharmacy" where
  "mkResult i d pr =
     \<lparr>lat = 0, lon = 0, ident = i, name = [], address = [], phone = [],
      distance = d, price = pr, priceUnit = ''per strip'', stock = InStock,
      isBestOption = False\<rparr>"

section \<open>Concrete states\<close>

definition exampleInventory :: GlobalInventory where
  "exampleInventory =
     [''paracetamol'' \<mapsto>
        [\<lparr>pharmacyId = 21, info_price = 50, info_stock = InStock\<rparr>,
         \<lparr>pharmacyId = 1001, info_price = 40, info_stock = InStock\<rparr>,
         \<lparr>pharmacyId = 22, info_price = 10, info_stock = LowStock\<rparr>]]"

definition examplePharmacy :: Pharmacy where
  "examplePharmacy =
     \<lparr>lat = 12.9189, lon = 77.4856, ident = 1001, name = ''Corner Chemist'',
      address = ''Kengeri'', phone = ''080-0000-0000'', distance = 0, price = 0,
      priceUnit = [], stock = OutOfStock, isBestOption = False\<rparr>"

definition exampleStorage :: LocalStorage where
  "exampleStorage =
     \<lparr>item_globalPharmacyInventory = Some exampleInventory,
      item_dynamicPharmacies = Some [examplePharmacy]\<rparr>"

definition exampleLocation :: Location where
  "exampleLocation = \<lparr>lat = 12.9189, lon = 77.4856\<rparr>"

section \<open>Invariants of the stored inventory\<close>

text \<open>At most one record for each pair of a medicine key and a pharmacy id.\<close>

definition inventoryInvariant :: "GlobalInventory \<Rightarrow> bool" where
  "inventoryInvariant g \<longleftrightarrow> (\<forall>k l. g k = Some l \<longrightarrow> distinct (map pharmacyId l))"

text \<open>No medicine key is present with an empty list.\<close>

definition noEmptyLists :: "GlobalInventory \<Rightarrow> bool" where
  "noEmptyLists g \<longleftrightarrow> (\<forall>k. g k \<noteq> Some [])"

text \<open>No own property of the inventory has a name inherited from \<open>Object.prototype\<close>.\<close>

definition ownKeysPlain :: "GlobalInventory \<Rightarrow> bool" where
  "ownKeysPlain g \<longleftrightarrow> (\<forall>k. k \<in> set objectPrototypeKeys \<longrightarrow> g k = None)"

definition emptyStorage :: LocalStorage where
  "emptyStorage = \<lparr>item_globalPharmacyInventory = None, item_dynamicPharmacies = None\<rparr>"

definition constructorItem :: InventoryItem where
  "constructorItem =
     \<lparr>medicineName = ''Constructor'', item_price = 5, item_stock = Some InStock\<rparr>"

definition exampleItem :: InventoryItem where
  "exampleItem = \<lparr>medicineName = ''Paracetamol'', item_price = 45, item_stock = None\<rparr>"

definition singleStorage :: LocalStorage where
  "singleStorage =
     \<lparr>item_globalPharmacyInventory =
        Some [''paracetamol'' \<mapsto> [\<lparr>pharmacyId = 21, info_price = 50, info_stock = InStock\<rparr>]],
      item_dynamicPharmacies = None\<rparr>"

definition apolloOwner :: PharmacyOwner where
  "apolloOwner =
     \<lparr>owner_name = ''APOLLO PHARMACY'', owner_phone = ''000'', owner_address = ''Elsewhere''\<rparr>"

definition newOwner :: PharmacyOwner where
  "newOwner =
     \<lparr>owner_name = ''New Chemist'', owner_phone = ''080-1111-2222'', owner_address = ''MG Road''\<rparr>"

definition newOwnerAgain :: PharmacyOwner where
  "newOwnerAgain =
     \<lparr>owner_name = ''NEW CHEMIST'', owner_phone = ''999'', owner_address = ''Other Road''\<rparr>"

definition newLocation :: Location where
  "newLocation = \<lparr>lat = 12.97, lon = 77.59\<rparr>"

definition otherLocation :: Location where
  "otherLocation = \<lparr>lat = 13, lon = 77\<rparr>"

section \<open>Helper lemmas: host-language functions\<close>

lemma findIndex_Some:
  "findIndex P xs = Some i \<Longrightarrow> i < length xs \<and> P (xs ! i) \<and> (\<forall>j<i. \<not> P (xs ! j))"
proof (induction xs arbitrary: i)
  case Nil
  then show ?case by simp
next
  case (Cons x xs)
  show ?case
  proof (cases "P x")
    case True
    with Cons.prems show ?thesis by simp
  next
    case False
    with Cons.prems obtain k where k: "findIndex P xs = Some k" "i = Suc k" by auto
    from Cons.IH [OF k(1)] False k(2) show ?thesis by (auto simp: less_Suc_eq_0_disj)
  qed
qed

lemma findIndex_None: "findIndex P xs = None \<longleftrightarrow> (\<forall>x\<in>set xs. \<not> P x)"
  by (induction xs) auto

lemma map_update_same: "f (g (xs ! i)) = f (xs ! i) \<Longrightarrow> map f (xs[i := g (xs ! i)]) = map f xs"
  by (metis list_update_id map_update)

lemma toFixed1_0: "toFixed1 0 = 0"
  by (simp add: toFixed1_def)

text \<open>
  The rounding to one decimal: the result is a whole number of tenths, at most half a
  tenth from the argument, and a tie goes away from zero.
\<close>

lemma toFixed1_tenths: "\<exists>k::int. toFixed1 x = real_of_int k / 10"
proof (cases "x < 0")
  case True
  then have "toFixed1 x = real_of_int (- \<lfloor>10 * (- x) + 1 / 2\<rfloor>) / 10"
    by (simp add: toFixed1_def)
  then show ?thesis by blast
next
  case False
  then have "toFixed1 x = real_of_int \<lfloor>10 * x + 1 / 2\<rfloor> / 10"
    by (simp add: toFixed1_def)
  then show ?thesis by blast
qed

lemma round_half_near:
  fixes y :: real
  shows "\<bar>real_of_int \<lfloor>10 * y + 1 / 2\<rfloor> / 10 - y\<bar> \<le> 1 / 20"
proof -
  define k where "k = real_of_int \<lfloor>10 * y + 1 / 2\<rfloor>"
  have "k \<le> 10 * y + 1 / 2" unfolding k_def by linarith
  moreover have "10 * y + 1 / 2 < k + 1" unfolding k_def by linarith
  ultimately have "\<bar>k / 10 - y\<bar> \<le> 1 / 20" by argo
  then show ?thesis by (simp only: k_def)
qed

lemma toFixed1_near: "\<bar>toFixed1 x - x\<bar> \<le> 1 / 20"
proof (cases "x < 0")
  case True
  have "\<bar>toFixed1 x - x\<bar> = \<bar>real_of_int \<lfloor>10 * (- x) + 1 / 2\<rfloor> / 10 - (- x)\<bar>"
    using True by (simp add: toFixed1_def abs_if)
  with round_half_near [of "- x"] show ?thesis by simp
next
  case False
  from round_half_near [of x] False show ?thesis by (simp add: toFixed1_def)
qed

lemma toFixed1_examples:
  "toFixed1 0.24 = 0.2" "toFixed1 0.25 = 0.3" "toFixed1 11553.36 = 11553.4"
  "toFixed1 (- 0.25) = - 0.3"
  by (simp_all add: toFixed1_def)

lemma toLowerCase_Paracetamol: "toLowerCase ''Paracetamol'' = ''paracetamol''"
  by code_simp

lemma toLowerCase_constructor: "toLowerCase ''constructor'' = ''constructor''"
  by code_simp

section \<open>Helper lemmas: distance\<close>

lemma haversine_same_place: "lat a = lat b \<Longrightarrow> lon a = lon b \<Longrightarrow> haversineDistance a b = 0"
  by (simp add: haversineDistance_def Math_atan2_def)

lemma sin_half_swap: "sin ((x - y) * pi / 180 / 2) = - sin ((y - x) * pi / 180 / 2)"
proof -
  have "(x - y) * pi / 180 / 2 = - ((y - x) * pi / 180 / 2)" by (simp add: field_simps)
  then show ?thesis by (simp only: sin_minus)
qed

lemma haversine_swap: "haversineDistance a b = haversineDistance b a"
  unfolding haversineDistance_def Let_def
    sin_half_swap [of "lat a" "lat b"] sin_half_swap [of "lon a" "lon b"]
  by (simp add: mult.commute)

lemma haversine_cong:
  "lat p = lat q \<Longrightarrow> lon p = lon q \<Longrightarrow> haversineDistance u p = haversineDistance u q"
  by (simp add: haversineDistance_def)

lemma haversine_term_bounds:
  fixes x y z :: real
  defines "h \<equiv> (sin ((y - x) / 2))\<^sup>2 + cos x * cos y * (sin (z / 2))\<^sup>2"
  shows "0 \<le> h \<and> h \<le> 1"
proof -
  let ?A = "(sin ((y - x) / 2))\<^sup>2"
  let ?B = "(sin (z / 2))\<^sup>2"
  let ?C = "cos x * cos y"
  have A: "0 \<le> ?A" "?A \<le> 1" by (simp_all add: abs_square_le_1)
  have B: "0 \<le> ?B" "?B \<le> 1" by (simp_all add: abs_square_le_1)
  have e2: "2 * ((y - x) / 2) = y - x" by simp
  have d: "cos (y - x) = 1 - 2 * ?A"
    using cos_double_sin [of "(y - x) / 2"] unfolding e2 .
  have "cos (y - x) + cos (y + x) = 2 * ?C"
    by (simp add: cos_diff cos_add)
  with d have C: "?C = (1 - 2 * ?A + cos (y + x)) / 2" by simp
  have c1: "- 1 \<le> cos (y + x)" and c2: "cos (y + x) \<le> 1" by simp_all
  have below: "- a \<le> c" if "c = (1 - 2 * a + k) / 2" "- 1 \<le> k" for a c k :: real
    using that by (simp add: field_simps)
  have above: "c \<le> 1 - a" if "c = (1 - 2 * a + k) / 2" "k \<le> 1" for a c k :: real
    using that by (simp add: field_simps)
  from below [OF C c1] have lo: "- ?A \<le> ?C" .
  from above [OF C c2] have hi: "?C \<le> 1 - ?A" .
  have "0 \<le> ?A + ?C * ?B"
  proof (cases "0 \<le> ?C")
    case True
    with B(1) have "0 \<le> ?C * ?B" by simp
    with A(1) show ?thesis by linarith
  next
    case False
    then have "?C * 1 \<le> ?C * ?B" using B(2) by (intro mult_left_mono_neg) simp_all
    with lo show ?thesis by linarith
  qed
  moreover have "?A + ?C * ?B \<le> 1"
  proof (cases "0 \<le> ?C")
    case True
    then have "?C * ?B \<le> ?C * 1" using B(2) by (intro mult_left_mono) simp_all
    with hi show ?thesis by linarith
  next
    case False
    then have "?C \<le> 0" by linarith
    from mult_nonpos_nonneg [OF this B(1)] have "?C * ?B \<le> 0" .
    with A(2) show ?thesis by linarith
  qed
  ultimately show ?thesis by (simp add: h_def)
qed

lemma atan2_arcsin:
  assumes "0 \<le> h" "h \<le> 1"
  shows "Math_atan2 (sqrt h) (sqrt (1 - h)) = arcsin (sqrt h)"
proof (cases "h = 1")
  case True
  then show ?thesis by (simp add: Math_atan2_def)
next
  case False
  with assms have h: "h < 1" by simp
  let ?s = "sqrt h"
  let ?t = "arcsin ?s"
  from assms h have s: "0 \<le> ?s" "?s < 1" by (simp_all add: real_sqrt_lt_1_iff)
  from s have "- 1 < ?s" by linarith
  from arcsin_lt_bounded [OF this s(2)] have t: "- (pi / 2) < ?t" "?t < pi / 2"
    by simp_all
  have pos: "0 < sqrt (1 - h)" using h by simp
  from s have m1: "- 1 \<le> ?s" and m2: "?s \<le> 1" by linarith+
  from cos_arcsin [OF m1 m2] have c: "cos ?t = sqrt (1 - h)" using assms by simp
  from sin_arcsin [OF m1 m2] have "sin ?t = ?s" .
  with c have "tan ?t = ?s / sqrt (1 - h)" by (simp add: tan_def)
  then have "arctan (?s / sqrt (1 - h)) = arctan (tan ?t)" by simp
  also have "\<dots> = ?t" using t by (rule arctan_tan)
  finally show ?thesis using pos by (simp add: Math_atan2_def)
qed

lemma haversine_formula: "haversineDistance p q = haversineFormula 6371 p q"
proof -
  let ?h = "(sin ((radians (lat q) - radians (lat p)) / 2))\<^sup>2 +
       cos (radians (lat p)) * cos (radians (lat q)) *
       (sin ((radians (lon q) - radians (lon p)) / 2))\<^sup>2"
  from haversine_term_bounds [where x = "radians (lat p)" and y = "radians (lat q)"
      and z = "radians (lon q) - radians (lon p)"]
  have b: "0 \<le> ?h" "?h \<le> 1" by simp_all
  have e: "sin ((lat q - lat p) * pi / 180 / 2) * sin ((lat q - lat p) * pi / 180 / 2) +
              cos (lat p * pi / 180) * cos (lat q * pi / 180) *
              sin ((lon q - lon p) * pi / 180 / 2) * sin ((lon q - lon p) * pi / 180 / 2) = ?h"
    by (simp add: radians_def power2_eq_square diff_divide_distrib left_diff_distrib)
  show ?thesis
    unfolding haversineDistance_def Let_def e haversineFormula_def
    by (simp add: atan2_arcsin [OF b])
qed

lemma haversine_range: "0 \<le> haversineDistance p q \<and> haversineDistance p q \<le> 6371 * pi"
proof -
  let ?h = "(sin ((radians (lat q) - radians (lat p)) / 2))\<^sup>2 +
       cos (radians (lat p)) * cos (radians (lat q)) *
       (sin ((radians (lon q) - radians (lon p)) / 2))\<^sup>2"
  from haversine_term_bounds [where x = "radians (lat p)" and y = "radians (lat q)"
      and z = "radians (lon q) - radians (lon p)"]
  have b: "0 \<le> ?h" "?h \<le> 1" by simp_all
  then have s: "0 \<le> sqrt ?h" "sqrt ?h \<le> 1" by simp_all
  from s have m: "- 1 \<le> sqrt ?h" by linarith
  from arcsin_bounded [OF m s(2)] have up: "arcsin (sqrt ?h) \<le> pi / 2" by simp
  from arcsin_le_arcsin [of 0 "sqrt ?h"] s have "0 \<le> arcsin (sqrt ?h)" by simp
  with up show ?thesis
    unfolding haversine_formula haversineFormula_def by simp
qed

text \<open>
  In exact arithmetic \<open>a\<close> lies between 0 and 1, so that neither square root of line
  218 is NaN, and the model with NaN agrees with \<open>haversineDistance\<close>. Outside this
  interval the result is NaN.
\<close>

lemma haversineFromA_unit:
  "0 \<le> a \<Longrightarrow> a \<le> 1 \<Longrightarrow>
   haversineFromA a = Some (6371 * (2 * Math_atan2 (sqrt a) (sqrt (1 - a))))"
  by (simp add: haversineFromA_def Math_sqrt_def)

lemma haversineFromA_NaN: "a < 0 \<or> 1 < a \<Longrightarrow> haversineFromA a = None"
  by (auto simp: haversineFromA_def Math_sqrt_def)

lemma haversineA_unit: "0 \<le> haversineA p q \<and> haversineA p q \<le> 1"
proof -
  have "haversineA p q =
      (sin ((radians (lat q) - radians (lat p)) / 2))\<^sup>2 +
       cos (radians (lat p)) * cos (radians (lat q)) *
       (sin ((radians (lon q) - radians (lon p)) / 2))\<^sup>2"
    by (simp add: haversineA_def radians_def power2_eq_square diff_divide_distrib
        left_diff_distrib)
  with haversine_term_bounds [where x = "radians (lat p)" and y = "radians (lat q)"
      and z = "radians (lon q) - radians (lon p)"]
  show ?thesis by simp
qed

lemma haversine_exact: "haversineFromA (haversineA p q) = Some (haversineDistance p q)"
  using haversineA_unit [of p q]
  by (simp add: haversineFromA_unit) (simp add: haversineA_def haversineDistance_def Let_def)

text \<open>
  At two antipodal coordinates the exact value of \<open>a\<close> is 1, the end of the interval.
\<close>

lemma haversineA_antipodes:
  "haversineA \<lparr>lat = t, lon = 0\<rparr> \<lparr>lat = - t, lon = 180\<rparr> = 1"
  "haversineA \<lparr>lat = - t, lon = 180\<rparr> \<lparr>lat = t, lon = 0\<rparr> = 1"
proof -
  define u where "u = t * pi / 180"
  have s: "sin u * sin u + cos u * cos u = 1"
    using sin_cos_squared_add [of u] by (simp add: power2_eq_square)
  have h: "(- t - t) * pi / 180 / 2 = - u" "(t - - t) * pi / 180 / 2 = u"
    "(180 - 0) * pi / 180 / 2 = pi / 2" "(0 - 180) * pi / 180 / 2 = - (pi / 2)"
    "- t * pi / 180 = - u"
    by (simp_all add: u_def)
  have "haversineA \<lparr>lat = t, lon = 0\<rparr> \<lparr>lat = - t, lon = 180\<rparr> =
      sin (- u) * sin (- u) + cos u * cos (- u) * sin (pi / 2) * sin (pi / 2)"
    unfolding haversineA_def Let_def Location.simps h u_def [symmetric] ..
  then show "haversineA \<lparr>lat = t, lon = 0\<rparr> \<lparr>lat = - t, lon = 180\<rparr> = 1"
    using s by simp
  have "haversineA \<lparr>lat = - t, lon = 180\<rparr> \<lparr>lat = t, lon = 0\<rparr> =
      sin u * sin u + cos (- u) * cos u * sin (- (pi / 2)) * sin (- (pi / 2))"
    unfolding haversineA_def Let_def Location.simps h u_def [symmetric] ..
  then show "haversineA \<lparr>lat = - t, lon = 180\<rparr> \<lparr>lat = t, lon = 0\<rparr> = 1"
    using s by simp
qed

section \<open>Helper lemmas: best-option selection\<close>

lemma foldl_bestStep_Some:
  "\<exists>b'. foldl bestStep (Some b) xs = Some b' \<and> b' \<in> insert b (set xs)"
proof (induction xs arbitrary: b)
  case Nil
  show ?case by simp
next
  case (Cons x xs)
  show ?case using Cons.IH [of x] Cons.IH [of b] by (auto simp: bestStep_def)
qed

lemma determineBestOption_mem:
  assumes "rs \<noteq> []"
  shows "\<exists>b. determineBestOption rs = Some b \<and> b \<in> set rs"
proof -
  from assms obtain x xs where rs: "rs = x # xs" by (cases rs) auto
  show ?thesis using foldl_bestStep_Some [of x xs]
    by (auto simp: rs determineBestOption_def bestStep_def)
qed

lemma determineBestOption_Some_mem: "determineBestOption rs = Some b \<Longrightarrow> b \<in> set rs"
proof (cases "rs = []")
  case True
  then show "determineBestOption rs = Some b \<Longrightarrow> ?thesis"
    by (simp add: determineBestOption_def)
next
  case False
  from determineBestOption_mem [OF False]
  show "determineBestOption rs = Some b \<Longrightarrow> ?thesis" by auto
qed

lemma flag_one:
  "i < length xs \<Longrightarrow> \<forall>x\<in>set xs. \<not> isBestOption x \<Longrightarrow>
   length (filter isBestOption (xs[i := (xs ! i)\<lparr>isBestOption := True\<rparr>])) = 1"
proof (induction xs arbitrary: i)
  case Nil
  then show ?case by simp
next
  case (Cons x xs)
  have none: "filter isBestOption xs = []"
    using Cons.prems(2) by (auto simp: filter_empty_conv)
  show ?case
  proof (cases i)
    case 0
    then show ?thesis using none by simp
  next
    case (Suc k)
    then show ?thesis using Cons by simp
  qed
qed

lemma markBestOption_length: "length (markBestOption rs) = length rs"
  by (simp add: markBestOption_def split: option.splits)

lemma markBestOption_distance: "map distance (markBestOption rs) = map distance rs"
  by (simp add: markBestOption_def map_update_same split: option.splits)

lemma markBestOption_stock: "map stock (markBestOption rs) = map stock rs"
  by (simp add: markBestOption_def map_update_same split: option.splits)

lemma markBestOption_lat: "map lat (markBestOption rs) = map lat rs"
  by (simp add: markBestOption_def map_update_same split: option.splits)

lemma markBestOption_lon: "map lon (markBestOption rs) = map lon rs"
  by (simp add: markBestOption_def map_update_same split: option.splits)

lemma markBestOption_exactly_one:
  assumes "rs \<noteq> []" "\<forall>x\<in>set rs. \<not> isBestOption x"
  shows "length (filter isBestOption (markBestOption rs)) = 1"
proof -
  from determineBestOption_mem [OF assms(1)] obtain b where
    b: "determineBestOption rs = Some b" "b \<in> set rs" by blast
  have "findIndex (\<lambda>p. ident p = ident b) rs \<noteq> None"
    using b(2) by (auto simp: findIndex_None)
  then obtain i where i: "findIndex (\<lambda>p. ident p = ident b) rs = Some i" by auto
  from findIndex_Some [OF i] have "i < length rs" by simp
  then show ?thesis using b(1) i assms(2) by (simp add: markBestOption_def flag_one)
qed

lemma bestStep_spec:
  "foldl bestStep (Some b) xs = Some (foldl (\<lambda>best p. if replacesBest best p then p else best) b xs)"
proof (induction xs arbitrary: b)
  case Nil
  show ?case by simp
next
  case (Cons x xs)
  have "bestStep (Some b) x = Some (if replacesBest b x then x else b)"
    by (auto simp: bestStep_def replacesBest_def)
  then show ?case using Cons.IH by simp
qed

lemma bestStep_ruleB_sorted:
  "sorted (map distance (b # xs)) \<Longrightarrow> foldl bestStep (Some b) xs = foldl bestStepB (Some b) xs"
proof (induction xs arbitrary: b)
  case Nil
  show ?case by simp
next
  case (Cons x xs)
  from Cons.prems have le: "distance b \<le> distance x" by simp
  from Cons.prems have sx: "sorted (map distance (x # xs))" by simp
  from Cons.prems have sb: "sorted (map distance (b # xs))" by auto
  from le have step: "bestStep (Some b) x = bestStepB (Some b) x"
    by (simp add: bestStep_def bestStepB_def)
  have "bestStepB (Some b) x = Some x \<or> bestStepB (Some b) x = Some b"
    by (simp add: bestStepB_def)
  then show ?case
  proof
    assume "bestStepB (Some b) x = Some x"
    then show ?thesis using step Cons.IH [OF sx] by simp
  next
    assume "bestStepB (Some b) x = Some b"
    then show ?thesis using step Cons.IH [OF sb] by simp
  qed
qed

lemma determineBestOption_ruleB_sorted:
  assumes "sorted (map distance rs)"
  shows "determineBestOption rs = determineBestOptionB rs"
proof (cases rs)
  case Nil
  then show ?thesis by (simp add: determineBestOption_def determineBestOptionB_def)
next
  case (Cons x xs)
  with assms bestStep_ruleB_sorted [of x xs] show ?thesis
    by (simp add: determineBestOption_def determineBestOptionB_def bestStep_def bestStepB_def)
qed

section \<open>Helper lemmas: property lookup\<close>

lemma getProperty_Entries: "getProperty g k = Entries l \<longleftrightarrow> g k = Some l"
  by (simp add: getProperty_def split: option.splits)

lemma getProperty_Inherited:
  "getProperty g k = Inherited \<longleftrightarrow> g k = None \<and> k \<in> set objectPrototypeKeys"
  by (simp add: getProperty_def split: option.splits)

lemma getProperty_Undefined:
  "getProperty g k = Undefined \<longleftrightarrow> g k = None \<and> k \<notin> set objectPrototypeKeys"
  by (simp add: getProperty_def split: option.splits)

lemma lookup_Entries:
  "getPharmaciesForMedicine st m = Entries l \<longleftrightarrow>
     (case getGlobalInventory st (toLowerCase m) of
        Some es \<Rightarrow> l = es
      | None \<Rightarrow> l = [] \<and> toLowerCase m \<notin> set objectPrototypeKeys)"
  by (auto simp: getPharmaciesForMedicine_def getProperty_def split: option.splits)

lemma lookup_Inherited:
  "getPharmaciesForMedicine st m = Inherited \<longleftrightarrow>
     getGlobalInventory st (toLowerCase m) = None \<and> toLowerCase m \<in> set objectPrototypeKeys"
  by (auto simp: getPharmaciesForMedicine_def getProperty_def split: option.splits)

lemma lookup_not_Undefined: "getPharmaciesForMedicine st m \<noteq> Undefined"
  by (simp add: getPharmaciesForMedicine_def split: propertyValue.splits)

section \<open>Helper lemmas: the search\<close>

lemma searchResults_length: "length (searchResults loc pws ps) \<le> 10"
  by (simp add: searchResults_def)

lemma searchResults_sorted: "sorted (map distance (searchResults loc pws ps))"
  unfolding searchResults_def Let_def
  by (simp add: take_map [symmetric] sorted_filter)

lemma searchResults_member:
  assumes "p \<in> set (searchResults loc pws ps)"
  shows "stock p = InStock \<and> \<not> isBestOption p \<and>
         distance p = toFixed1 (haversineDistance loc p)"
proof -
  from assms have "p \<in> set (filter (\<lambda>p. stock p = InStock)
      (sort_key distance (map (withDetails loc pws) ps)))"
    unfolding searchResults_def Let_def by (rule in_set_takeD)
  then obtain q where q: "p = withDetails loc pws q"
    and s: "stock p = InStock" by auto
  have "haversineDistance loc p = haversineDistance loc q"
    by (rule haversine_cong) (simp_all add: q withDetails_def)
  then show ?thesis using s by (simp add: q withDetails_def)
qed

lemma markBestOption_member:
  assumes "p \<in> set (markBestOption rs)"
  shows "\<exists>q\<in>set rs. p = q \<or> p = q\<lparr>isBestOption := True\<rparr>"
proof (cases "determineBestOption rs")
  case None
  with assms show ?thesis by (auto simp: markBestOption_def)
next
  case (Some b)
  show ?thesis
  proof (cases "findIndex (\<lambda>p. ident p = ident b) rs")
    case None
    with Some assms show ?thesis by (auto simp: markBestOption_def)
  next
    case (Some i)
    from findIndex_Some [OF Some] have i: "i < length rs" by simp
    from assms \<open>determineBestOption rs = Some b\<close> Some
    have "p \<in> set (rs[i := (rs ! i)\<lparr>isBestOption := True\<rparr>])"
      by (simp add: markBestOption_def)
    then have "p = (rs ! i)\<lparr>isBestOption := True\<rparr> \<or> p \<in> set rs"
      using set_update_subset_insert [of rs i] by auto
    then show ?thesis using i nth_mem [OF i] by auto
  qed
qed

lemma flagged_member:
  assumes "p \<in> set (markBestOption (searchResults loc pws ps))"
  shows "stock p = InStock \<and> distance p = toFixed1 (haversineDistance loc p)"
proof -
  from markBestOption_member [OF assms]
  obtain q where q: "q \<in> set (searchResults loc pws ps)"
    and pq: "p = q \<or> p = q\<lparr>isBestOption := True\<rparr>" by blast
  have "haversineDistance loc p = haversineDistance loc q"
    using pq by (auto intro: haversine_cong)
  then show ?thesis using searchResults_member [OF q] pq by auto
qed

lemma flagged_count:
  "length (filter isBestOption (markBestOption (searchResults loc pws ps))) =
     (if searchResults loc pws ps = [] then 0 else 1)"
proof (cases "searchResults loc pws ps = []")
  case True
  then show ?thesis
    by (simp add: markBestOption_def determineBestOption_def)
next
  case False
  have "\<forall>x\<in>set (searchResults loc pws ps). \<not> isBestOption x"
    using searchResults_member by blast
  from markBestOption_exactly_one [OF False this] False show ?thesis by simp
qed

lemma searchResults_ruleB:
  "determineBestOption (searchResults loc pws ps) = determineBestOptionB (searchResults loc pws ps)"
  by (rule determineBestOption_ruleB_sorted) (rule searchResults_sorted)

lemma findNearbyPharmacies_Inr:
  "findNearbyPharmacies st loc n = Inr r \<longleftrightarrow>
     (\<exists>pws. getPharmaciesForMedicine st n = Entries pws \<and>
            r = markBestOption (searchResults loc pws (getCombinedPharmacies st)))"
  by (auto simp: findNearbyPharmacies_def split: propertyValue.splits)

lemma findNearbyPharmacies_Inl:
  "findNearbyPharmacies st loc n = Inl TypeError \<longleftrightarrow>
     getGlobalInventory st (toLowerCase n) = None \<and> toLowerCase n \<in> set objectPrototypeKeys"
  using lookup_not_Undefined [of st n]
  by (auto simp: findNearbyPharmacies_def lookup_Inherited [symmetric]
      split: propertyValue.splits)

section \<open>Helper lemmas: evaluation of the concrete states\<close>

lemma example_lookup:
  "getPharmaciesForMedicine exampleStorage ''Paracetamol'' =
     Entries
       [\<lparr>pharmacyId = 21, info_price = 50, info_stock = InStock\<rparr>,
        \<lparr>pharmacyId = 1001, info_price = 40, info_stock = InStock\<rparr>,
        \<lparr>pharmacyId = 22, info_price = 10, info_stock = LowStock\<rparr>]"
  by (simp add: lookup_Entries getGlobalInventory_def exampleStorage_def
      exampleInventory_def toLowerCase_Paracetamol)

lemma example_searchResults:
  "searchResults exampleLocation
     [\<lparr>pharmacyId = 21, info_price = 50, info_stock = InStock\<rparr>,
      \<lparr>pharmacyId = 1001, info_price = 40, info_stock = InStock\<rparr>,
      \<lparr>pharmacyId = 22, info_price = 10, info_stock = LowStock\<rparr>]
     (getCombinedPharmacies exampleStorage) =
     [\<lparr>lat = 12.9189, lon = 77.4856, ident = 21, name = ''Apollo Pharmacy'',
       address = ''Mysore Road, Kengeri Satellite Town'', phone = ''080-2848-1122'',
       distance = 0, price = 50, priceUnit = ''per strip'', stock = InStock,
       isBestOption = False\<rparr>,
      \<lparr>lat = 12.9189, lon = 77.4856, ident = 1001, name = ''Corner Chemist'',
       address = ''Kengeri'', phone = ''080-0000-0000'', distance = 0, price = 40,
       priceUnit = ''per strip'', stock = InStock, isBestOption = False\<rparr>]"
  unfolding searchResults_def Let_def filter_sort
  by (simp add: getCombinedPharmacies_def getDynamicPharmacies_def exampleStorage_def
      examplePharmacy_def VERIFIED_PHARMACIES_IN_BANGALORE_def mkBase_def baseOf_def
      withDetails_def newMap_def exampleLocation_def haversine_same_place toFixed1_0)

lemma example_findNearbyPharmacies:
  "findNearbyPharmacies exampleStorage exampleLocation ''Paracetamol'' =
     Inr
       [\<lparr>lat = 12.9189, lon = 77.4856, ident = 21, name = ''Apollo Pharmacy'',
         address = ''Mysore Road, Kengeri Satellite Town'', phone = ''080-2848-1122'',
         distance = 0, price = 50, priceUnit = ''per strip'', stock = InStock,
         isBestOption = False\<rparr>,
        \<lparr>lat = 12.9189, lon = 77.4856, ident = 1001, name = ''Corner Chemist'',
         address = ''Kengeri'', phone = ''080-0000-0000'', distance = 0, price = 40,
         priceUnit = ''per strip'', stock = InStock, isBestOption = True\<rparr>]"
  unfolding findNearbyPharmacies_def example_lookup propertyValue.case example_searchResults
  by (simp add: markBestOption_def determineBestOption_def bestStep_def)

section \<open>Theorems about the search\<close>

text \<open>
  In exact arithmetic \<open>haversineDistance\<close> computes the haversine formula with radius
  6371: the value is that of the textbook form with the inverse sine, and lies between 0
  and half the circumference; the distance from a coordinate to itself is zero, and the
  distance is symmetric in its arguments. The code computes in doubles, where the last
  property is lost: see the theorem that follows.
\<close>

lemma haversineDistance_exact_arithmetic:
  "haversineDistance a a = 0 \<and>
   haversineDistance a b = haversineDistance b a \<and>
   haversineDistance a b = haversineFormula 6371 a b \<and>
   0 \<le> haversineDistance a b \<and> haversineDistance a b \<le> 6371 * pi"
  using haversine_same_place [of a a] haversine_swap [of a b] haversine_formula [of a b]
    haversine_range [of a b]
  by simp

text \<open>
  C10. \<open>haversineDistance\<close> is not symmetric for all coordinates: for the antipodal
  coordinates \<open>{lat: 8, lon: 0}\<close> and \<open>{lat: -8, lon: 180}\<close> it returns NaN in both
  orders, and NaN is equal to nothing. The exact value of \<open>a\<close> at these coordinates is 1,
  the largest value at which \<open>Math.sqrt(1 - a)\<close> of line 218 is a number. Lines 212 to
  217 evaluated in doubles give \<open>1.0000000000000002\<close>, the next double above 1, which is
  \<open>1 + 1 / 2 ^ 52\<close> (a value obtained by evaluating these lines in IEEE arithmetic: the
  rounding of doubles is not part of this model). On this value lines 218 and 219 return
  NaN, because the code does not clamp \<open>a\<close> to 1, and the result is not equal to itself.
\<close>

theorem haversineDistance_antipodes_NaN:
  "haversineA \<lparr>lat = 8, lon = 0\<rparr> \<lparr>lat = - 8, lon = 180\<rparr> = 1 \<and>
   haversineA \<lparr>lat = - 8, lon = 180\<rparr> \<lparr>lat = 8, lon = 0\<rparr> = 1 \<and>
   haversineFromA 1 = Some (6371 * pi) \<and>
   haversineFromA (1 + 1 / 2 ^ 52) = None \<and>
   \<not> numberEquals (haversineFromA (1 + 1 / 2 ^ 52)) (haversineFromA (1 + 1 / 2 ^ 52))"
proof -
  have "haversineFromA 1 = Some (6371 * pi)"
    by (simp add: haversineFromA_def Math_sqrt_def Math_atan2_def)
  moreover have "haversineFromA (1 + 1 / 2 ^ 52) = None"
    by (simp add: haversineFromA_def Math_sqrt_def)
  moreover have "\<not> numberEquals None None"
    by (simp add: numberEquals_def)
  ultimately show ?thesis
    using haversineA_antipodes [of 8] by simp
qed

text \<open>
  With distances in exact arithmetic, for every stored state, user location and medicine
  name, a list the search returns has at most ten results, every result is in stock and
  carries the distance rounded to one decimal, the results are in ascending order of
  distance, and at most one result is flagged as the best option. The search returns a
  list unless the lower-cased medicine name is a property name inherited from
  \<open>Object.prototype\<close> that the stored inventory does not have as a key of its own.
  A distance that the doubles of the code make NaN is outside this statement.
\<close>

lemma findNearbyPharmacies_returned_lists:
  "(\<forall>r. findNearbyPharmacies st loc n = Inr r \<longrightarrow>
      length r \<le> 10 \<and>
      (\<forall>p\<in>set r. stock p = InStock \<and> distance p = toFixed1 (haversineDistance loc p)) \<and>
      sorted (map distance r) \<and>
      length (filter isBestOption r) \<le> 1) \<and>
   ((\<exists>r. findNearbyPharmacies st loc n = Inr r) \<longleftrightarrow>
      \<not> (getGlobalInventory st (toLowerCase n) = None \<and>
         toLowerCase n \<in> set objectPrototypeKeys))"
proof -
  have shape: "length r \<le> 10 \<and>
      (\<forall>p\<in>set r. stock p = InStock \<and> distance p = toFixed1 (haversineDistance loc p)) \<and>
      sorted (map distance r) \<and>
      length (filter isBestOption r) \<le> 1"
    if "findNearbyPharmacies st loc n = Inr r" for r
  proof -
    from that obtain pws where
      r: "r = markBestOption (searchResults loc pws (getCombinedPharmacies st))"
      by (auto simp: findNearbyPharmacies_Inr)
    have "length r \<le> 10"
      by (simp add: r markBestOption_length searchResults_length)
    moreover have "\<forall>p\<in>set r. stock p = InStock \<and>
        distance p = toFixed1 (haversineDistance loc p)"
      unfolding r using flagged_member by blast
    moreover have "sorted (map distance r)"
      by (simp add: r markBestOption_distance searchResults_sorted)
    moreover have "length (filter isBestOption r) \<le> 1"
      by (simp add: r flagged_count)
    ultimately show ?thesis by blast
  qed
  have total: "(\<exists>r. findNearbyPharmacies st loc n = Inr r) \<longleftrightarrow>
      \<not> (getGlobalInventory st (toLowerCase n) = None \<and>
         toLowerCase n \<in> set objectPrototypeKeys)"
  proof -
    have "(\<exists>r. findNearbyPharmacies st loc n = Inr r) \<longleftrightarrow>
        findNearbyPharmacies st loc n \<noteq> Inl TypeError"
      by (cases "findNearbyPharmacies st loc n") (auto intro: error.exhaust)
    then show ?thesis by (simp add: findNearbyPharmacies_Inl)
  qed
  from shape total show ?thesis by blast
qed

lemma findNearbyPharmacies_returned_lists_example:
  "(\<exists>r. findNearbyPharmacies exampleStorage exampleLocation ''Paracetamol'' = Inr r \<and>
      length r = 2 \<and> map ident r = [21, 1001] \<and> map stock r = [InStock, InStock] \<and>
      sorted (map distance r) \<and> length (filter isBestOption r) \<le> 1) \<and>
   toLowerCase ''Paracetamol'' \<notin> set objectPrototypeKeys"
  using findNearbyPharmacies_returned_lists [of exampleStorage exampleLocation "''Paracetamol''"]
  by (simp add: example_findNearbyPharmacies toLowerCase_Paracetamol objectPrototypeKeys_def)

lemma findNearbyPharmacies_distance_rounded:
  assumes "findNearbyPharmacies st loc n = Inr r" and "p \<in> set r"
  shows "(\<exists>k::int. distance p = real_of_int k / 10) \<and>
         \<bar>distance p - haversineDistance loc p\<bar> \<le> 1 / 20"
proof -
  from findNearbyPharmacies_returned_lists [of st loc n] assms
  have "distance p = toFixed1 (haversineDistance loc p)" by blast
  with toFixed1_tenths [of "haversineDistance loc p"] toFixed1_near [of "haversineDistance loc p"]
  show ?thesis by simp
qed

text \<open>
  C1. The search does not return a list for every medicine name. For the name
  \<open>constructor\<close> and an inventory that has no key \<open>constructor\<close> of its own, the lookup
  of \<open>getPharmaciesForMedicine\<close> yields the function \<open>Object\<close> that every object
  inherits, not an array; \<open>pharmaciesWithStock.map\<close> at line 234 throws a TypeError
  inside the timer callback and the promise is never resolved. This happens with the
  empty storage and with the example storage, which holds stock of another medicine: no
  list of at most ten in-stock results in ascending order of distance is returned.
\<close>

theorem findNearbyPharmacies_inherited_key_throws:
  "getGlobalInventory emptyStorage (toLowerCase ''constructor'') = None \<and>
   findNearbyPharmacies emptyStorage exampleLocation ''constructor'' = Inl TypeError \<and>
   getGlobalInventory exampleStorage (toLowerCase ''constructor'') = None \<and>
   findNearbyPharmacies exampleStorage exampleLocation ''constructor'' = Inl TypeError"
  by (simp add: findNearbyPharmacies_def getPharmaciesForMedicine_def getProperty_def
      getGlobalInventory_def emptyStorage_def exampleStorage_def exampleInventory_def
      toLowerCase_constructor objectPrototypeKeys_def)

text \<open>
  C9. Whenever the search returns a non-empty list, exactly one result is flagged: the
  pass over the results yields a winner that is an element of the results, and the lookup
  by the winner's id finds an index of the list, at which the flag is set.
\<close>

theorem findNearbyPharmacies_exactly_one_best:
  assumes "findNearbyPharmacies st loc n = Inr r" and "r \<noteq> []"
  shows "length (filter isBestOption r) = 1 \<and>
         (\<exists>pws rs b i.
            getPharmaciesForMedicine st n = Entries pws \<and>
            rs = searchResults loc pws (getCombinedPharmacies st) \<and>
            determineBestOption rs = Some b \<and> b \<in> set rs \<and>
            findIndex (\<lambda>p. ident p = ident b) rs = Some i \<and> i < length rs \<and>
            r = rs[i := (rs ! i)\<lparr>isBestOption := True\<rparr>])"
proof -
  from assms(1) obtain pws where pws: "getPharmaciesForMedicine st n = Entries pws"
    and r: "r = markBestOption (searchResults loc pws (getCombinedPharmacies st))"
    by (auto simp: findNearbyPharmacies_Inr)
  let ?rs = "searchResults loc pws (getCombinedPharmacies st)"
  from assms(2) have ne: "?rs \<noteq> []"
    using markBestOption_length [of ?rs] by (auto simp: r)
  then have one: "length (filter isBestOption r) = 1"
    by (simp add: r flagged_count)
  from determineBestOption_mem [OF ne] obtain b where
    b: "determineBestOption ?rs = Some b" "b \<in> set ?rs"
    by blast
  have "findIndex (\<lambda>p. ident p = ident b) ?rs \<noteq> None"
    using b(2) by (auto simp: findIndex_None)
  then obtain i where i: "findIndex (\<lambda>p. ident p = ident b) ?rs = Some i"
    by auto
  from findIndex_Some [OF i] have il: "i < length ?rs" by simp
  have "r = ?rs[i := (?rs ! i)\<lparr>isBestOption := True\<rparr>]"
    by (simp add: r markBestOption_def b(1) i)
  with one pws b i il show ?thesis by blast
qed

theorem findNearbyPharmacies_exactly_one_best_witness:
  "\<exists>r. findNearbyPharmacies exampleStorage exampleLocation ''Paracetamol'' = Inr r \<and>
      r \<noteq> [] \<and> length (filter isBestOption r) = 1 \<and>
      map isBestOption r = [False, True]"
proof -
  obtain r where r: "findNearbyPharmacies exampleStorage exampleLocation ''Paracetamol'' = Inr r"
    and s: "r \<noteq> []" "map isBestOption r = [False, True]"
    by (simp add: example_findNearbyPharmacies)
  from findNearbyPharmacies_exactly_one_best [OF r s(1)]
  have "length (filter isBestOption r) = 1" by (rule conjunct1)
  with r s show ?thesis by (intro exI [of _ r]) simp
qed

text \<open>
  C2. The selection of the best option is one pass from left to right over the results:
  the first result is the initial best, and a later candidate replaces the best exactly
  when rule (a) or rule (b) holds. For three results A (distance 1.0, price 50),
  B (distance 1.5, price 40) and C (distance 5.0, price 100), in that order, none flagged
  before and A and B with different ids, B is the one flagged.
\<close>

theorem determineBestOption_single_pass:
  "determineBestOption rs = selectBestSpec rs \<and>
   (distance A = 1.0 \<and> price A = 50 \<and> distance B = 1.5 \<and> price B = 40 \<and>
    distance C = 5.0 \<and> price C = 100 \<and> ident A \<noteq> ident B \<and>
    \<not> isBestOption A \<and> \<not> isBestOption C \<longrightarrow>
      determineBestOption [A, B, C] = Some B \<and>
      markBestOption [A, B, C] = [A, B\<lparr>isBestOption := True\<rparr>, C] \<and>
      map isBestOption (markBestOption [A, B, C]) = [False, True, False])"
proof -
  have pass: "determineBestOption rs = selectBestSpec rs"
  proof (cases rs)
    case Nil
    then show ?thesis by (simp add: determineBestOption_def)
  next
    case (Cons x xs)
    then show ?thesis using bestStep_spec [of x xs]
      by (simp add: determineBestOption_def bestStep_def)
  qed
  have scenario: "determineBestOption [A, B, C] = Some B \<and>
      markBestOption [A, B, C] = [A, B\<lparr>isBestOption := True\<rparr>, C] \<and>
      map isBestOption (markBestOption [A, B, C]) = [False, True, False]"
    if "distance A = 1.0" "price A = 50" "distance B = 1.5" "price B = 40"
      "distance C = 5.0" "price C = 100" "ident A \<noteq> ident B"
      "\<not> isBestOption A" "\<not> isBestOption C"
  proof -
    have best: "determineBestOption [A, B, C] = Some B"
      using that by (simp add: determineBestOption_def bestStep_def)
    then show ?thesis using that by (simp add: markBestOption_def)
  qed
  from pass scenario show ?thesis by blast
qed

theorem determineBestOption_single_pass_witness:
  "determineBestOption [mkResult 1 1.0 50, mkResult 2 1.5 40, mkResult 3 5.0 100] =
     Some (mkResult 2 1.5 40) \<and>
   map isBestOption
     (markBestOption [mkResult 1 1.0 50, mkResult 2 1.5 40, mkResult 3 5.0 100]) =
     [False, True, False] \<and>
   map ident (markBestOption [mkResult 1 1.0 50, mkResult 2 1.5 40, mkResult 3 5.0 100]) =
     [1, 2, 3]"
  using determineBestOption_single_pass
    [of "[]" "mkResult 1 1.0 50" "mkResult 2 1.5 40" "mkResult 3 5.0 100"]
  by (simp add: mkResult_def)

text \<open>
  C3. On a list sorted in ascending order of distance, rule (a) never replaces the best
  option (a tie of distances does not satisfy its strict comparison either), and the
  two-rule pass yields the same winner as the pass that applies rule (b) alone.
\<close>

theorem determineBestOption_ruleB_only:
  assumes "sorted (map distance rs)"
  shows "determineBestOption rs = determineBestOptionB rs \<and>
         (\<forall>xs p ys b. rs = xs @ p # ys \<and> determineBestOption xs = Some b \<longrightarrow>
            \<not> (distance p < distance b \<and> price p < price b + 10))"
proof -
  have never: "\<not> (distance p < distance b \<and> price p < price b + 10)"
    if "rs = xs @ p # ys" "determineBestOption xs = Some b" for xs p ys b
  proof -
    from that(2) have "b \<in> set xs" by (rule determineBestOption_Some_mem)
    with assms that(1) have "distance b \<le> distance p"
      by (auto simp: sorted_append)
    then show ?thesis by simp
  qed
  from determineBestOption_ruleB_sorted [OF assms] never show ?thesis by blast
qed

theorem determineBestOption_ruleB_only_witness:
  "sorted (map distance [mkResult 1 1.0 50, mkResult 2 1.5 40, mkResult 3 5.0 100]) \<and>
   determineBestOption [mkResult 1 1.0 50, mkResult 2 1.5 40, mkResult 3 5.0 100] =
     determineBestOptionB [mkResult 1 1.0 50, mkResult 2 1.5 40, mkResult 3 5.0 100] \<and>
   determineBestOptionB [mkResult 1 1.0 50, mkResult 2 1.5 40, mkResult 3 5.0 100] =
     Some (mkResult 2 1.5 40)"
proof -
  have s: "sorted (map distance [mkResult 1 1.0 50, mkResult 2 1.5 40, mkResult 3 5.0 100])"
    by (simp add: mkResult_def)
  have b: "determineBestOptionB [mkResult 1 1.0 50, mkResult 2 1.5 40, mkResult 3 5.0 100] =
     Some (mkResult 2 1.5 40)"
    by (simp add: determineBestOptionB_def bestStepB_def mkResult_def)
  from determineBestOption_ruleB_only [OF s] s b show ?thesis by simp
qed

section \<open>Helper lemmas: lists of records\<close>

lemma filter_update_out:
  "\<not> P (xs ! i) \<Longrightarrow> \<not> P y \<Longrightarrow> filter P (xs[i := y]) = filter P xs"
proof (induction xs arbitrary: i)
  case Nil
  show ?case by simp
next
  case (Cons x xs)
  then show ?case by (cases i) auto
qed

lemma map_update_keep: "f y = f (xs ! i) \<Longrightarrow> map f (xs[i := y]) = map f xs"
  by (metis list_update_id map_update)

lemma filter_key_unique:
  "distinct (map f xs) \<Longrightarrow> x \<in> set xs \<Longrightarrow> filter (\<lambda>y. f y = f x) xs = [x]"
proof (induction xs)
  case Nil
  then show ?case by simp
next
  case (Cons a xs)
  show ?case
  proof (cases "x = a")
    case True
    from Cons.prems(1) have "f a \<notin> f ` set xs" by simp
    then have "\<forall>y\<in>set xs. f y \<noteq> f a" by (metis imageI)
    then have "filter (\<lambda>y. f y = f a) xs = []" by (simp add: filter_empty_conv)
    with True show ?thesis by simp
  next
    case False
    with Cons.prems have "x \<in> set xs" "f a \<noteq> f x" by auto
    with Cons show ?thesis by simp
  qed
qed

lemma upsertEntries_found:
  assumes "findIndex (\<lambda>p. pharmacyId p = pid) es = Some i"
  shows "upsertEntries pid item es =
     es[i := \<lparr>pharmacyId = pid, info_price = item_price item,
              info_stock = (case item_stock item of None \<Rightarrow> InStock | Some s \<Rightarrow> s)\<rparr>]"
proof -
  from findIndex_Some [OF assms] have "pharmacyId (es ! i) = pid" by simp
  then have "(es ! i)\<lparr>info_price := item_price item,
        info_stock := (case item_stock item of None \<Rightarrow> InStock | Some s \<Rightarrow> s)\<rparr> =
      \<lparr>pharmacyId = pid, info_price = item_price item,
       info_stock = (case item_stock item of None \<Rightarrow> InStock | Some s \<Rightarrow> s)\<rparr>"
    by (cases "es ! i") simp
  then show ?thesis using assms by (simp add: upsertEntries_def Let_def)
qed

lemma upsertEntries_fresh:
  assumes "findIndex (\<lambda>p. pharmacyId p = pid) es = None"
  shows "upsertEntries pid item es =
     es @ [\<lparr>pharmacyId = pid, info_price = item_price item,
            info_stock = (case item_stock item of None \<Rightarrow> InStock | Some s \<Rightarrow> s)\<rparr>]"
  using assms by (simp add: upsertEntries_def Let_def)

lemma upsertEntries_distinct:
  assumes "distinct (map pharmacyId es)"
  shows "distinct (map pharmacyId (upsertEntries pid item es))"
proof (cases "findIndex (\<lambda>p. pharmacyId p = pid) es")
  case None
  then have "pid \<notin> pharmacyId ` set es" by (auto simp: findIndex_None)
  with assms show ?thesis by (simp add: upsertEntries_fresh [OF None])
next
  case (Some i)
  from findIndex_Some [OF Some] have "pharmacyId (es ! i) = pid" by simp
  with assms show ?thesis by (simp add: upsertEntries_found [OF Some] map_update_keep)
qed

lemma upsertEntries_member:
  "\<lparr>pharmacyId = pid, info_price = item_price item,
    info_stock = (case item_stock item of None \<Rightarrow> InStock | Some s \<Rightarrow> s)\<rparr>
   \<in> set (upsertEntries pid item es)"
proof (cases "findIndex (\<lambda>p. pharmacyId p = pid) es")
  case None
  then show ?thesis by (simp add: upsertEntries_fresh)
next
  case (Some i)
  from findIndex_Some [OF Some] have "i < length es" by simp
  then show ?thesis by (simp add: upsertEntries_found [OF Some] set_update_memI)
qed

lemma upsertEntries_nonempty: "upsertEntries pid item es \<noteq> []"
  using upsertEntries_member [of pid item es] by auto

lemma upsertEntries_unique:
  assumes "distinct (map pharmacyId es)"
  shows "filter (\<lambda>p. pharmacyId p = pid) (upsertEntries pid item es) =
     [\<lparr>pharmacyId = pid, info_price = item_price item,
       info_stock = (case item_stock item of None \<Rightarrow> InStock | Some s \<Rightarrow> s)\<rparr>]"
  using filter_key_unique [OF upsertEntries_distinct [OF assms] upsertEntries_member]
  by simp

section \<open>Helper lemmas: the inventory\<close>

lemma getGlobalInventory_save: "getGlobalInventory (saveGlobalInventory st g) = g"
  by (simp add: getGlobalInventory_def saveGlobalInventory_def)

lemma saveGlobalInventory_pharmacies:
  "item_dynamicPharmacies (saveGlobalInventory st g) = item_dynamicPharmacies st"
  by (simp add: saveGlobalInventory_def)

lemma upsertItem_Inl:
  "upsertItem pid g item = Inl e \<longleftrightarrow>
     g (toLowerCase (medicineName item)) = None \<and>
     toLowerCase (medicineName item) \<in> set objectPrototypeKeys"
  by (cases e)
    (auto simp: upsertItem_def Let_def getProperty_def split: option.splits if_splits)

lemma upsertItem_Inr:
  "upsertItem pid g item = Inr g' \<longleftrightarrow>
     \<not> (g (toLowerCase (medicineName item)) = None \<and>
        toLowerCase (medicineName item) \<in> set objectPrototypeKeys) \<and>
     g' = g(toLowerCase (medicineName item) \<mapsto>
            upsertEntries pid item
              (case g (toLowerCase (medicineName item)) of None \<Rightarrow> [] | Some l \<Rightarrow> l))"
  by (auto simp: upsertItem_def Let_def getProperty_def split: option.splits if_splits)

lemma upsertItem_invariant:
  assumes "inventoryInvariant g" and "upsertItem pid g item = Inr g'"
  shows "inventoryInvariant g'"
proof -
  let ?key = "toLowerCase (medicineName item)"
  let ?es = "case g ?key of None \<Rightarrow> [] | Some l \<Rightarrow> l"
  from assms(2) have g': "g' = g(?key \<mapsto> upsertEntries pid item ?es)"
    by (simp add: upsertItem_Inr)
  have "distinct (map pharmacyId ?es)"
    using assms(1) by (auto simp: inventoryInvariant_def split: option.splits)
  then have "distinct (map pharmacyId (upsertEntries pid item ?es))"
    by (rule upsertEntries_distinct)
  with assms(1) show ?thesis
    unfolding g' inventoryInvariant_def by simp
qed

lemma upsertItem_noEmptyLists:
  assumes "noEmptyLists g" and "upsertItem pid g item = Inr g'"
  shows "noEmptyLists g'"
proof -
  from assms(2) have "g' = g(toLowerCase (medicineName item) \<mapsto>
      upsertEntries pid item
        (case g (toLowerCase (medicineName item)) of None \<Rightarrow> [] | Some l \<Rightarrow> l))"
    by (simp add: upsertItem_Inr)
  with assms(1) show ?thesis
    by (simp add: noEmptyLists_def upsertEntries_nonempty)
qed

lemma upsertItem_ownKeysPlain:
  assumes "ownKeysPlain g" and "upsertItem pid g item = Inr g'"
  shows "ownKeysPlain g'"
proof -
  let ?key = "toLowerCase (medicineName item)"
  from assms(2) have g': "g' = g(?key \<mapsto> upsertEntries pid item
        (case g ?key of None \<Rightarrow> [] | Some l \<Rightarrow> l))"
    and ok: "\<not> (g ?key = None \<and> ?key \<in> set objectPrototypeKeys)"
    by (simp_all add: upsertItem_Inr)
  from ok assms(1) have "?key \<notin> set objectPrototypeKeys"
    by (auto simp: ownKeysPlain_def)
  with assms(1) show ?thesis
    unfolding g' ownKeysPlain_def by auto
qed

lemma forEachUpsert_preserves:
  assumes step: "\<And>g item g'. P g \<Longrightarrow> upsertItem pid g item = Inr g' \<Longrightarrow> P g'"
  shows "P g \<Longrightarrow> forEachUpsert pid items g = Inr g' \<Longrightarrow> P g'"
proof (induction items arbitrary: g)
  case Nil
  then show ?case by simp
next
  case (Cons item items)
  from Cons.prems(2) obtain g1 where g1: "upsertItem pid g item = Inr g1"
    and rest: "forEachUpsert pid items g1 = Inr g'"
    by (auto split: sum.splits)
  from step [OF Cons.prems(1) g1] have "P g1" .
  from Cons.IH [OF this rest] show ?case .
qed

lemma forEachUpsert_snoc:
  "forEachUpsert pid (items @ [item]) g =
     (case forEachUpsert pid items g of
        Inl e \<Rightarrow> Inl e
      | Inr g' \<Rightarrow> upsertItem pid g' item)"
  by (induction items arbitrary: g) (auto split: sum.splits)

lemma forEachUpsert_plain:
  assumes "\<forall>item\<in>set items. toLowerCase (medicineName item) \<notin> set objectPrototypeKeys"
  shows "\<exists>g'. forEachUpsert pid items g = Inr g'"
  using assms
proof (induction items arbitrary: g)
  case Nil
  show ?case by simp
next
  case (Cons item items)
  from Cons.prems have "toLowerCase (medicineName item) \<notin> set objectPrototypeKeys" by simp
  then obtain g1 where g1: "upsertItem pid g item = Inr g1"
    by (simp add: upsertItem_Inr)
  from Cons.IH [of g1] Cons.prems obtain g' where "forEachUpsert pid items g1 = Inr g'"
    by auto
  with g1 show ?case by simp
qed

lemma updateGlobalInventory_Inr:
  "updateGlobalInventory st pid items = Inr st' \<longleftrightarrow>
     (\<exists>g'. forEachUpsert pid items (getGlobalInventory st) = Inr g' \<and>
           st' = saveGlobalInventory st g')"
  by (auto simp: updateGlobalInventory_def split: sum.splits)

lemma updateStock_Inr:
  "updateStockStatusInGlobalInventory st pid m s = Inr st' \<longleftrightarrow>
     (case getGlobalInventory st (toLowerCase m) of
        None \<Rightarrow> toLowerCase m \<notin> set objectPrototypeKeys \<and> st' = st
      | Some es \<Rightarrow>
          (case findIndex (\<lambda>p. pharmacyId p = pid) es of
             None \<Rightarrow> st' = st
           | Some i \<Rightarrow>
               st' = saveGlobalInventory st
                 ((getGlobalInventory st)(toLowerCase m \<mapsto>
                    es[i := (es ! i)\<lparr>info_stock := s\<rparr>])))) "
  by (auto simp: updateStockStatusInGlobalInventory_def Let_def getProperty_def
      split: option.splits)

lemma updateStock_Inl:
  "updateStockStatusInGlobalInventory st pid m s = Inl e \<longleftrightarrow>
     getGlobalInventory st (toLowerCase m) = None \<and> toLowerCase m \<in> set objectPrototypeKeys"
  by (cases e)
    (auto simp: updateStockStatusInGlobalInventory_def Let_def getProperty_def
      split: option.splits)

lemma delete_Inr:
  "deleteFromGlobalInventory st pid m = Inr st' \<longleftrightarrow>
     (case getGlobalInventory st (toLowerCase m) of
        None \<Rightarrow> toLowerCase m \<notin> set objectPrototypeKeys \<and>
                st' = saveGlobalInventory st (getGlobalInventory st)
      | Some es \<Rightarrow>
          st' = saveGlobalInventory st
            (if filter (\<lambda>p. pharmacyId p \<noteq> pid) es = []
             then (getGlobalInventory st)(toLowerCase m := None)
             else (getGlobalInventory st)(toLowerCase m \<mapsto>
                    filter (\<lambda>p. pharmacyId p \<noteq> pid) es)))"
  by (auto simp: deleteFromGlobalInventory_def Let_def getProperty_def
      split: option.splits)

lemma delete_Inl:
  "deleteFromGlobalInventory st pid m = Inl e \<longleftrightarrow>
     getGlobalInventory st (toLowerCase m) = None \<and> toLowerCase m \<in> set objectPrototypeKeys"
  by (cases e)
    (auto simp: deleteFromGlobalInventory_def Let_def getProperty_def
      split: option.splits)

lemma updateStock_noEmptyLists:
  assumes "noEmptyLists (getGlobalInventory st)"
    and "updateStockStatusInGlobalInventory st pid m s = Inr st'"
  shows "noEmptyLists (getGlobalInventory st')"
proof (cases "getGlobalInventory st (toLowerCase m)")
  case None
  with assms show ?thesis by (simp add: updateStock_Inr)
next
  case (Some es)
  show ?thesis
  proof (cases "findIndex (\<lambda>p. pharmacyId p = pid) es")
    case None
    with Some assms show ?thesis by (simp add: updateStock_Inr)
  next
    case (Some i)
    from findIndex_Some [OF Some] have "es \<noteq> []" by auto
    with Some \<open>getGlobalInventory st (toLowerCase m) = Some es\<close> assms show ?thesis
      by (simp add: updateStock_Inr getGlobalInventory_save noEmptyLists_def)
  qed
qed

lemma updateStock_ownKeysPlain:
  assumes "ownKeysPlain (getGlobalInventory st)"
    and "updateStockStatusInGlobalInventory st pid m s = Inr st'"
  shows "ownKeysPlain (getGlobalInventory st')"
  using assms
  by (auto simp: updateStock_Inr getGlobalInventory_save ownKeysPlain_def
      split: option.splits)

lemma delete_ownKeysPlain:
  assumes "ownKeysPlain (getGlobalInventory st)"
    and "deleteFromGlobalInventory st pid m = Inr st'"
  shows "ownKeysPlain (getGlobalInventory st')"
  using assms
  by (auto simp: delete_Inr getGlobalInventory_save ownKeysPlain_def
      split: option.splits if_splits)

lemma update_ownKeysPlain:
  assumes "ownKeysPlain (getGlobalInventory st)"
    and "updateGlobalInventory st pid items = Inr st'"
  shows "ownKeysPlain (getGlobalInventory st')"
proof -
  from assms(2) obtain g' where g': "forEachUpsert pid items (getGlobalInventory st) = Inr g'"
    and st': "st' = saveGlobalInventory st g'"
    by (auto simp: updateGlobalInventory_Inr)
  from forEachUpsert_preserves [of ownKeysPlain pid, OF upsertItem_ownKeysPlain assms(1) g']
  show ?thesis by (simp add: st' getGlobalInventory_save)
qed

lemma emptyStorage_ownKeysPlain: "ownKeysPlain (getGlobalInventory emptyStorage)"
  by (simp add: ownKeysPlain_def getGlobalInventory_def emptyStorage_def)

lemma toLowerCase_PARACETAMOL: "toLowerCase ''PARACETAMOL'' = ''paracetamol''"
  by code_simp

lemma toLowerCase_Aspirin: "toLowerCase ''Aspirin'' = ''aspirin''"
  by code_simp

lemma toLowerCase_Constructor: "toLowerCase ''Constructor'' = ''constructor''"
  by code_simp

lemma exampleStorage_inventory: "getGlobalInventory exampleStorage = exampleInventory"
  by (simp add: getGlobalInventory_def exampleStorage_def)

lemma exampleInventory_invariant: "inventoryInvariant exampleInventory"
  by (simp add: inventoryInvariant_def exampleInventory_def)

lemma exampleInventory_ownKeysPlain: "ownKeysPlain exampleInventory"
  by (simp add: ownKeysPlain_def exampleInventory_def objectPrototypeKeys_def)

section \<open>The inventory operations on keys that are not inherited\<close>

lemma updateGlobalInventory_invariant:
  assumes "inventoryInvariant (getGlobalInventory st)"
    and "updateGlobalInventory st pid items = Inr st'"
  shows "inventoryInvariant (getGlobalInventory st')"
proof -
  from assms(2) obtain g' where g': "forEachUpsert pid items (getGlobalInventory st) = Inr g'"
    and st': "st' = saveGlobalInventory st g'"
    by (auto simp: updateGlobalInventory_Inr)
  from forEachUpsert_preserves [of inventoryInvariant pid, OF upsertItem_invariant assms(1) g']
  show ?thesis by (simp add: st' getGlobalInventory_save)
qed

lemma updateGlobalInventory_noEmptyLists:
  assumes "noEmptyLists (getGlobalInventory st)"
    and "updateGlobalInventory st pid items = Inr st'"
  shows "noEmptyLists (getGlobalInventory st')"
proof -
  from assms(2) obtain g' where g': "forEachUpsert pid items (getGlobalInventory st) = Inr g'"
    and st': "st' = saveGlobalInventory st g'"
    by (auto simp: updateGlobalInventory_Inr)
  from forEachUpsert_preserves [of noEmptyLists pid, OF upsertItem_noEmptyLists assms(1) g']
  show ?thesis by (simp add: st' getGlobalInventory_save)
qed

lemma saveGlobalInventory_twice:
  "saveGlobalInventory (saveGlobalInventory st g) g' = saveGlobalInventory st g'"
  by (simp add: saveGlobalInventory_def)

text \<open>A batch is the sequence of its single-item calls, up to the first exception.\<close>

lemma updateGlobalInventory_snoc:
  "updateGlobalInventory st pid (items @ [item]) =
     (case updateGlobalInventory st pid items of
        Inl e \<Rightarrow> Inl e
      | Inr st1 \<Rightarrow> updateGlobalInventory st1 pid [item])"
proof (cases "forEachUpsert pid items (getGlobalInventory st)")
  case (Inl e)
  then show ?thesis by (simp add: updateGlobalInventory_def forEachUpsert_snoc)
next
  case (Inr g1)
  then show ?thesis
    by (cases "upsertItem pid g1 item")
      (simp_all add: updateGlobalInventory_def forEachUpsert_snoc getGlobalInventory_save
        saveGlobalInventory_twice)
qed

lemma updateGlobalInventory_returns:
  assumes "\<forall>item\<in>set items. toLowerCase (medicineName item) \<notin> set objectPrototypeKeys"
  shows "\<exists>st'. updateGlobalInventory st pid items = Inr st'"
  using forEachUpsert_plain [OF assms, of pid "getGlobalInventory st"]
  by (auto simp: updateGlobalInventory_def)

text \<open>
  One item whose lower-cased name is not an inherited property name, or is a key of the
  stored inventory: the first record of the pharmacy is overwritten in place, or a new
  record is appended; an absent stock is stored as \<open>InStock\<close>.
\<close>

lemma updateGlobalInventory_single:
  assumes "\<not> (getGlobalInventory st (toLowerCase (medicineName item)) = None \<and>
            toLowerCase (medicineName item) \<in> set objectPrototypeKeys)"
  shows "\<exists>st' old new.
     updateGlobalInventory st pid [item] = Inr st' \<and>
     getPharmaciesForMedicine st (medicineName item) = Entries old \<and>
     getPharmaciesForMedicine st' (medicineName item) = Entries new \<and>
     new = upsertEntries pid item old \<and>
     (\<forall>i. findIndex (\<lambda>p. pharmacyId p = pid) old = Some i \<longrightarrow>
        new = old[i := \<lparr>pharmacyId = pid, info_price = item_price item,
          info_stock = (case item_stock item of None \<Rightarrow> InStock | Some s \<Rightarrow> s)\<rparr>]) \<and>
     (findIndex (\<lambda>p. pharmacyId p = pid) old = None \<longrightarrow>
        new = old @ [\<lparr>pharmacyId = pid, info_price = item_price item,
          info_stock = (case item_stock item of None \<Rightarrow> InStock | Some s \<Rightarrow> s)\<rparr>]) \<and>
     (\<forall>k. k \<noteq> toLowerCase (medicineName item) \<longrightarrow>
        getGlobalInventory st' k = getGlobalInventory st k) \<and>
     (inventoryInvariant (getGlobalInventory st) \<longrightarrow>
        filter (\<lambda>p. pharmacyId p = pid) new =
          [\<lparr>pharmacyId = pid, info_price = item_price item,
            info_stock = (case item_stock item of None \<Rightarrow> InStock | Some s \<Rightarrow> s)\<rparr>]) \<and>
     item_dynamicPharmacies st' = item_dynamicPharmacies st"
proof -
  let ?g = "getGlobalInventory st"
  let ?key = "toLowerCase (medicineName item)"
  let ?old = "case ?g ?key of None \<Rightarrow> [] | Some l \<Rightarrow> l"
  let ?new = "upsertEntries pid item ?old"
  let ?st' = "saveGlobalInventory st (?g(?key \<mapsto> ?new))"
  from assms have u: "upsertItem pid ?g item = Inr (?g(?key \<mapsto> ?new))"
    by (simp add: upsertItem_Inr)
  then have r: "updateGlobalInventory st pid [item] = Inr ?st'"
    by (simp add: updateGlobalInventory_def)
  from assms have o: "getPharmaciesForMedicine st (medicineName item) = Entries ?old"
    by (auto simp: lookup_Entries split: option.splits)
  have n: "getPharmaciesForMedicine ?st' (medicineName item) = Entries ?new"
    by (simp add: lookup_Entries getGlobalInventory_save)
  have other: "\<forall>k. k \<noteq> ?key \<longrightarrow> getGlobalInventory ?st' k = ?g k"
    by (simp add: getGlobalInventory_save)
  have one: "inventoryInvariant ?g \<longrightarrow> filter (\<lambda>p. pharmacyId p = pid) ?new =
          [\<lparr>pharmacyId = pid, info_price = item_price item,
            info_stock = (case item_stock item of None \<Rightarrow> InStock | Some s \<Rightarrow> s)\<rparr>]"
  proof
    assume "inventoryInvariant ?g"
    then have "distinct (map pharmacyId ?old)"
      by (auto simp: inventoryInvariant_def split: option.splits)
    then show "filter (\<lambda>p. pharmacyId p = pid) ?new =
          [\<lparr>pharmacyId = pid, info_price = item_price item,
            info_stock = (case item_stock item of None \<Rightarrow> InStock | Some s \<Rightarrow> s)\<rparr>]"
      by (rule upsertEntries_unique)
  qed
  have found: "\<forall>i. findIndex (\<lambda>p. pharmacyId p = pid) ?old = Some i \<longrightarrow>
        ?new = ?old[i := \<lparr>pharmacyId = pid, info_price = item_price item,
          info_stock = (case item_stock item of None \<Rightarrow> InStock | Some s \<Rightarrow> s)\<rparr>]"
    using upsertEntries_found [of pid ?old _ item] by blast
  have fresh: "findIndex (\<lambda>p. pharmacyId p = pid) ?old = None \<longrightarrow>
        ?new = ?old @ [\<lparr>pharmacyId = pid, info_price = item_price item,
          info_stock = (case item_stock item of None \<Rightarrow> InStock | Some s \<Rightarrow> s)\<rparr>]"
    using upsertEntries_fresh [of pid ?old item] by blast
  have dyn: "item_dynamicPharmacies ?st' = item_dynamicPharmacies st"
    by (rule saveGlobalInventory_pharmacies)
  show ?thesis
    apply (rule exI [of _ ?st'])
    apply (rule exI [of _ ?old])
    apply (rule exI [of _ ?new])
    apply (intro conjI)
            apply (rule r)
           apply (rule o)
          apply (rule n)
         apply (rule refl)
        apply (rule found)
       apply (rule fresh)
      apply (rule other)
     apply (rule one)
    apply (rule dyn)
    done
qed

text \<open>
  A medicine whose lower-cased name is not an inherited property name, or is a key of
  the stored inventory: \<open>updateStockStatusInGlobalInventory\<close> returns the storage as it
  was when there is no record of the pharmacy, and otherwise changes the stock of the
  first such record and nothing else.
\<close>

lemma updateStockStatus_plain:
  assumes "\<not> (getGlobalInventory st (toLowerCase m) = None \<and>
            toLowerCase m \<in> set objectPrototypeKeys)"
  shows "\<exists>st' old new.
     updateStockStatusInGlobalInventory st pid m s = Inr st' \<and>
     getPharmaciesForMedicine st m = Entries old \<and>
     getPharmaciesForMedicine st' m = Entries new \<and>
     ((\<forall>p\<in>set old. pharmacyId p \<noteq> pid) \<longrightarrow> st' = st) \<and>
     (\<forall>i. findIndex (\<lambda>p. pharmacyId p = pid) old = Some i \<longrightarrow>
        new = old[i := (old ! i)\<lparr>info_stock := s\<rparr>] \<and>
        map pharmacyId new = map pharmacyId old \<and>
        map info_price new = map info_price old) \<and>
     filter (\<lambda>p. pharmacyId p \<noteq> pid) new = filter (\<lambda>p. pharmacyId p \<noteq> pid) old \<and>
     (\<forall>k. k \<noteq> toLowerCase m \<longrightarrow> getGlobalInventory st' k = getGlobalInventory st k) \<and>
     item_dynamicPharmacies st' = item_dynamicPharmacies st"
proof -
  let ?g = "getGlobalInventory st"
  let ?key = "toLowerCase m"
  let ?old = "case ?g ?key of None \<Rightarrow> [] | Some l \<Rightarrow> l"
  from assms have o: "getPharmaciesForMedicine st m = Entries ?old"
    by (auto simp: lookup_Entries split: option.splits)
  show ?thesis
  proof (cases "findIndex (\<lambda>p. pharmacyId p = pid) ?old")
    case None
    then have no: "\<forall>p\<in>set ?old. pharmacyId p \<noteq> pid" by (simp add: findIndex_None)
    from None assms have r: "updateStockStatusInGlobalInventory st pid m s = Inr st"
      by (auto simp: updateStock_Inr split: option.splits)
    from r o None show ?thesis by auto
  next
    case (Some i)
    from findIndex_Some [OF Some] have i: "i < length ?old" "pharmacyId (?old ! i) = pid"
      by simp_all
    then obtain es where es: "?g ?key = Some es" "?old = es"
      by (cases "?g ?key") auto
    let ?new = "es[i := (es ! i)\<lparr>info_stock := s\<rparr>]"
    let ?st' = "saveGlobalInventory st (?g(?key \<mapsto> ?new))"
    from es Some have r: "updateStockStatusInGlobalInventory st pid m s = Inr ?st'"
      by (simp add: updateStock_Inr)
    have n: "getPharmaciesForMedicine ?st' m = Entries ?new"
      by (simp add: lookup_Entries getGlobalInventory_save)
    have yes: "\<not> (\<forall>p\<in>set es. pharmacyId p \<noteq> pid)"
      using i es nth_mem [of i es] by auto
    have keep: "map pharmacyId ?new = map pharmacyId es \<and> map info_price ?new = map info_price es"
      by (simp add: map_update_keep)
    have rest: "filter (\<lambda>p. pharmacyId p \<noteq> pid) ?new = filter (\<lambda>p. pharmacyId p \<noteq> pid) es"
      using i es by (simp add: filter_update_out)
    have other: "\<forall>k. k \<noteq> ?key \<longrightarrow> getGlobalInventory ?st' k = ?g k"
      by (simp add: getGlobalInventory_save)
    have o': "getPharmaciesForMedicine st m = Entries es" using o es by simp
    have noop: "(\<forall>p\<in>set es. pharmacyId p \<noteq> pid) \<longrightarrow> ?st' = st" using yes by blast
    have upd: "\<forall>j. findIndex (\<lambda>p. pharmacyId p = pid) es = Some j \<longrightarrow>
        ?new = es[j := (es ! j)\<lparr>info_stock := s\<rparr>] \<and>
        map pharmacyId ?new = map pharmacyId es \<and>
        map info_price ?new = map info_price es"
      using Some es keep by simp
    have dyn: "item_dynamicPharmacies ?st' = item_dynamicPharmacies st"
      by (rule saveGlobalInventory_pharmacies)
    show ?thesis
      apply (rule exI [of _ ?st'])
      apply (rule exI [of _ es])
      apply (rule exI [of _ ?new])
      apply (intro conjI)
             apply (rule r)
            apply (rule o')
           apply (rule n)
          apply (rule noop)
         apply (rule upd)
        apply (rule rest)
       apply (rule other)
      apply (rule dyn)
      done
  qed
qed

lemma updateStockStatus_all_records:
  assumes inv: "inventoryInvariant (getGlobalInventory st)"
    and r: "updateStockStatusInGlobalInventory st pid m s = Inr st'"
    and new: "getPharmaciesForMedicine st' m = Entries new"
    and q: "q \<in> set new" "pharmacyId q = pid"
  shows "info_stock q = s"
proof (cases "getGlobalInventory st (toLowerCase m)")
  case None
  with r have "st' = st" by (simp add: updateStock_Inr)
  with None new q show ?thesis by (simp add: lookup_Entries)
next
  case (Some es)
  from inv Some have d: "distinct (map pharmacyId es)" by (simp add: inventoryInvariant_def)
  show ?thesis
  proof (cases "findIndex (\<lambda>p. pharmacyId p = pid) es")
    case None
    with Some r have "st' = st" by (simp add: updateStock_Inr)
    with Some new have "new = es" by (simp add: lookup_Entries)
    with None q show ?thesis by (auto simp: findIndex_None)
  next
    case (Some i)
    from findIndex_Some [OF Some] have i: "i < length es" "pharmacyId (es ! i) = pid"
      by simp_all
    from r \<open>getGlobalInventory st (toLowerCase m) = Some es\<close> Some new
    have n: "new = es[i := (es ! i)\<lparr>info_stock := s\<rparr>]"
      by (simp add: updateStock_Inr lookup_Entries getGlobalInventory_save)
    from q(1) obtain j where j: "j < length es" "q = new ! j"
      unfolding n by (auto simp: in_set_conv_nth)
    show ?thesis
    proof (cases "j = i")
      case True
      with j i n show ?thesis by simp
    next
      case False
      with j n have "q = es ! j" by simp
      with q(2) i j have e: "map pharmacyId es ! j = map pharmacyId es ! i" by simp
      from d j i have "(map pharmacyId es ! j = map pharmacyId es ! i) = (j = i)"
        by (intro nth_eq_iff_index_eq) simp_all
      with e False show ?thesis by simp
    qed
  qed
qed

section \<open>Theorems about the inventory\<close>

text \<open>
  C4. \<open>updateGlobalInventory\<close> keeps at most one record for each pair of a medicine key
  and a pharmacy id, and overwrites in place or appends, for every item whose lower-cased
  name is not an inherited property name (\<open>updateGlobalInventory_invariant\<close>,
  \<open>updateGlobalInventory_single\<close>, \<open>updateGlobalInventory_snoc\<close>). For the medicine name
  \<open>Constructor\<close> on the empty storage it does neither: the key is absent, yet
  \<open>globalInventory["constructor"]\<close> is the inherited function \<open>Object\<close>, the guard of
  line 42 takes it for an existing list, and line 45 throws. No record is appended, and the
  items of the batch that came before are not saved either.
\<close>

theorem updateGlobalInventory_inherited_key_throws:
  "getGlobalInventory emptyStorage (toLowerCase (medicineName constructorItem)) = None \<and>
   updateGlobalInventory emptyStorage 1 [constructorItem] = Inl TypeError \<and>
   updateGlobalInventory emptyStorage 1 [exampleItem, constructorItem] = Inl TypeError"
  by (simp add: updateGlobalInventory_def upsertItem_def getProperty_def Let_def
      getGlobalInventory_def emptyStorage_def constructorItem_def exampleItem_def
      toLowerCase_Constructor toLowerCase_Paracetamol objectPrototypeKeys_def)

text \<open>
  C7. On a stored inventory none of whose own keys is an inherited property name (the
  empty storage is one, and the three writing operations keep it so):
  \<open>deleteFromGlobalInventory\<close> removes the records of the pharmacy from the list under
  the lower-cased medicine name and leaves the other medicines alone; the key is removed
  when the list becomes empty and is never left with an empty list, and none of the three
  writing operations introduces an empty list. When every record of the medicine belonged
  to the pharmacy, the key is absent afterwards and a lookup of the medicine in any case
  returns the empty list. The call returns unless the lower-cased name is inherited.
\<close>

theorem deleteFromGlobalInventory_removes:
  assumes "ownKeysPlain (getGlobalInventory st)"
  shows "((\<exists>st'. deleteFromGlobalInventory st pid m = Inr st') \<longleftrightarrow>
            toLowerCase m \<notin> set objectPrototypeKeys) \<and>
     (\<forall>st' old.
        deleteFromGlobalInventory st pid m = Inr st' \<and>
        getPharmaciesForMedicine st m = Entries old \<longrightarrow>
          getPharmaciesForMedicine st' m = Entries (filter (\<lambda>p. pharmacyId p \<noteq> pid) old) \<and>
          getGlobalInventory st' (toLowerCase m) =
            (if filter (\<lambda>p. pharmacyId p \<noteq> pid) old = [] then None
             else Some (filter (\<lambda>p. pharmacyId p \<noteq> pid) old)) \<and>
          (\<forall>k. k \<noteq> toLowerCase m \<longrightarrow> getGlobalInventory st' k = getGlobalInventory st k) \<and>
          (noEmptyLists (getGlobalInventory st) \<longrightarrow> noEmptyLists (getGlobalInventory st')) \<and>
          ownKeysPlain (getGlobalInventory st') \<and>
          ((\<forall>p\<in>set old. pharmacyId p = pid) \<longrightarrow>
             getGlobalInventory st' (toLowerCase m) = None \<and>
             (\<forall>m'. toLowerCase m' = toLowerCase m \<longrightarrow>
                getPharmaciesForMedicine st' m' = Entries []))) \<and>
     (\<forall>st2. noEmptyLists (getGlobalInventory st) \<and>
        (updateGlobalInventory st pid items = Inr st2 \<or>
         updateStockStatusInGlobalInventory st pid m s = Inr st2) \<longrightarrow>
        noEmptyLists (getGlobalInventory st2))"
proof -
  let ?g = "getGlobalInventory st"
  let ?key = "toLowerCase m"
  have returns: "(\<exists>st'. deleteFromGlobalInventory st pid m = Inr st') \<longleftrightarrow>
      ?key \<notin> set objectPrototypeKeys"
  proof -
    have "(\<exists>st'. deleteFromGlobalInventory st pid m = Inr st') \<longleftrightarrow>
        deleteFromGlobalInventory st pid m \<noteq> Inl TypeError"
      by (cases "deleteFromGlobalInventory st pid m") (auto intro: error.exhaust)
    also have "\<dots> \<longleftrightarrow> \<not> (?g ?key = None \<and> ?key \<in> set objectPrototypeKeys)"
      by (simp add: delete_Inl)
    also have "\<dots> \<longleftrightarrow> ?key \<notin> set objectPrototypeKeys"
      using assms by (auto simp: ownKeysPlain_def)
    finally show ?thesis .
  qed
  have effect: "getPharmaciesForMedicine st' m = Entries (filter (\<lambda>p. pharmacyId p \<noteq> pid) old) \<and>
          getGlobalInventory st' ?key =
            (if filter (\<lambda>p. pharmacyId p \<noteq> pid) old = [] then None
             else Some (filter (\<lambda>p. pharmacyId p \<noteq> pid) old)) \<and>
          (\<forall>k. k \<noteq> ?key \<longrightarrow> getGlobalInventory st' k = ?g k) \<and>
          (noEmptyLists ?g \<longrightarrow> noEmptyLists (getGlobalInventory st')) \<and>
          ownKeysPlain (getGlobalInventory st') \<and>
          ((\<forall>p\<in>set old. pharmacyId p = pid) \<longrightarrow>
             getGlobalInventory st' ?key = None \<and>
             (\<forall>m'. toLowerCase m' = ?key \<longrightarrow>
                getPharmaciesForMedicine st' m' = Entries []))"
    if r: "deleteFromGlobalInventory st pid m = Inr st'"
      and o: "getPharmaciesForMedicine st m = Entries old" for st' old
  proof -
    let ?rem = "filter (\<lambda>p. pharmacyId p \<noteq> pid) old"
    let ?g' = "if ?rem = [] then ?g(?key := None) else ?g(?key \<mapsto> ?rem)"
    from r returns have plain: "?key \<notin> set objectPrototypeKeys" by blast
    have g': "getGlobalInventory st' = ?g'"
    proof (cases "?g ?key")
      case None
      with o have "old = []" by (simp add: lookup_Entries)
      moreover from None have "?g(?key := None) = ?g" by (simp add: fun_upd_idem)
      moreover from None r have "st' = saveGlobalInventory st ?g" by (simp add: delete_Inr)
      ultimately show ?thesis by (simp add: getGlobalInventory_save)
    next
      case (Some es)
      with o have "old = es" by (simp add: lookup_Entries)
      with Some r show ?thesis by (simp add: delete_Inr getGlobalInventory_save)
    qed
    have look: "getPharmaciesForMedicine st' m = Entries ?rem"
      using plain by (simp add: lookup_Entries g')
    have key: "getGlobalInventory st' ?key = (if ?rem = [] then None else Some ?rem)"
      by (simp add: g')
    have other: "\<forall>k. k \<noteq> ?key \<longrightarrow> getGlobalInventory st' k = ?g k"
      by (simp add: g')
    have keep: "noEmptyLists ?g \<longrightarrow> noEmptyLists (getGlobalInventory st')"
      by (simp add: g' noEmptyLists_def)
    have own: "ownKeysPlain (getGlobalInventory st')"
      using delete_ownKeysPlain [OF assms r] .
    have last: "(\<forall>p\<in>set old. pharmacyId p = pid) \<longrightarrow>
          getGlobalInventory st' ?key = None \<and>
          (\<forall>m'. toLowerCase m' = ?key \<longrightarrow> getPharmaciesForMedicine st' m' = Entries [])"
    proof
      assume "\<forall>p\<in>set old. pharmacyId p = pid"
      then have "?rem = []" by (simp add: filter_empty_conv)
      with key have "getGlobalInventory st' ?key = None" by simp
      then show "getGlobalInventory st' ?key = None \<and>
          (\<forall>m'. toLowerCase m' = ?key \<longrightarrow> getPharmaciesForMedicine st' m' = Entries [])"
        using plain by (simp add: lookup_Entries)
    qed
    show ?thesis
      apply (intro conjI)
           apply (rule look)
          apply (rule key)
         apply (rule other)
        apply (rule keep)
       apply (rule own)
      apply (rule last)
      done
  qed
  have ever: "\<forall>st2. noEmptyLists ?g \<and>
        (updateGlobalInventory st pid items = Inr st2 \<or>
         updateStockStatusInGlobalInventory st pid m s = Inr st2) \<longrightarrow>
        noEmptyLists (getGlobalInventory st2)"
  proof (intro allI impI)
    fix st2
    assume a: "noEmptyLists ?g \<and>
        (updateGlobalInventory st pid items = Inr st2 \<or>
         updateStockStatusInGlobalInventory st pid m s = Inr st2)"
    then have ne: "noEmptyLists ?g" by simp
    from a have "updateGlobalInventory st pid items = Inr st2 \<or>
         updateStockStatusInGlobalInventory st pid m s = Inr st2" by simp
    then show "noEmptyLists (getGlobalInventory st2)"
    proof
      assume "updateGlobalInventory st pid items = Inr st2"
      with ne show ?thesis by (rule updateGlobalInventory_noEmptyLists)
    next
      assume "updateStockStatusInGlobalInventory st pid m s = Inr st2"
      with ne show ?thesis by (rule updateStock_noEmptyLists)
    qed
  qed
  show ?thesis
    apply (intro conjI)
      apply (rule returns)
     apply (intro allI impI)
     apply (erule conjE)
     apply (rule effect)
      apply assumption
     apply assumption
    apply (rule ever)
    done
qed

theorem deleteFromGlobalInventory_removes_witness:
  "ownKeysPlain (getGlobalInventory singleStorage) \<and>
   getPharmaciesForMedicine singleStorage ''PARACETAMOL'' =
     Entries [\<lparr>pharmacyId = 21, info_price = 50, info_stock = InStock\<rparr>] \<and>
   (\<exists>st'. deleteFromGlobalInventory singleStorage 21 ''PARACETAMOL'' = Inr st' \<and>
      getGlobalInventory st' ''paracetamol'' = None \<and>
      getPharmaciesForMedicine st' ''Paracetamol'' = Entries [] \<and>
      noEmptyLists (getGlobalInventory st')) \<and>
   getPharmaciesForMedicine exampleStorage ''Paracetamol'' =
     Entries [\<lparr>pharmacyId = 21, info_price = 50, info_stock = InStock\<rparr>,
              \<lparr>pharmacyId = 1001, info_price = 40, info_stock = InStock\<rparr>,
              \<lparr>pharmacyId = 22, info_price = 10, info_stock = LowStock\<rparr>] \<and>
   (\<exists>st'. deleteFromGlobalInventory exampleStorage 21 ''Paracetamol'' = Inr st' \<and>
      getPharmaciesForMedicine st' ''Paracetamol'' =
        Entries [\<lparr>pharmacyId = 1001, info_price = 40, info_stock = InStock\<rparr>,
                 \<lparr>pharmacyId = 22, info_price = 10, info_stock = LowStock\<rparr>])"
proof -
  have g: "getGlobalInventory singleStorage =
      [''paracetamol'' \<mapsto> [\<lparr>pharmacyId = 21, info_price = 50, info_stock = InStock\<rparr>]]"
    by (simp add: getGlobalInventory_def singleStorage_def)
  have own: "ownKeysPlain (getGlobalInventory singleStorage)"
    by (simp add: g ownKeysPlain_def objectPrototypeKeys_def)
  have ne: "noEmptyLists (getGlobalInventory singleStorage)"
    by (simp add: g noEmptyLists_def)
  have old: "getPharmaciesForMedicine singleStorage ''PARACETAMOL'' =
      Entries [\<lparr>pharmacyId = 21, info_price = 50, info_stock = InStock\<rparr>]"
    by (simp add: lookup_Entries g toLowerCase_PARACETAMOL)
  have own2: "ownKeysPlain (getGlobalInventory exampleStorage)"
    by (simp add: exampleStorage_inventory exampleInventory_ownKeysPlain)
  have plain: "toLowerCase ''PARACETAMOL'' \<notin> set objectPrototypeKeys"
    "toLowerCase ''Paracetamol'' \<notin> set objectPrototypeKeys"
    by (simp_all add: toLowerCase_PARACETAMOL toLowerCase_Paracetamol objectPrototypeKeys_def)
  note t1 = deleteFromGlobalInventory_removes [OF own, of 21 "''PARACETAMOL''" "[]" InStock]
  note t2 = deleteFromGlobalInventory_removes [OF own2, of 21 "''Paracetamol''" "[]" InStock]
  from t1 plain(1) obtain st1 where
    r1: "deleteFromGlobalInventory singleStorage 21 ''PARACETAMOL'' = Inr st1" by blast
  from t1 r1 old ne have e1: "getGlobalInventory st1 (toLowerCase ''PARACETAMOL'') = None"
    "\<forall>m'. toLowerCase m' = toLowerCase ''PARACETAMOL'' \<longrightarrow>
        getPharmaciesForMedicine st1 m' = Entries []"
    "noEmptyLists (getGlobalInventory st1)"
    by simp_all
  from e1 have a: "\<exists>st'. deleteFromGlobalInventory singleStorage 21 ''PARACETAMOL'' = Inr st' \<and>
      getGlobalInventory st' ''paracetamol'' = None \<and>
      getPharmaciesForMedicine st' ''Paracetamol'' = Entries [] \<and>
      noEmptyLists (getGlobalInventory st')"
    using r1 by (intro exI [of _ st1]) (simp add: toLowerCase_PARACETAMOL toLowerCase_Paracetamol)
  from t2 plain(2) obtain st2 where
    r2: "deleteFromGlobalInventory exampleStorage 21 ''Paracetamol'' = Inr st2" by blast
  from t2 r2 example_lookup
  have "getPharmaciesForMedicine st2 ''Paracetamol'' =
        Entries [\<lparr>pharmacyId = 1001, info_price = 40, info_stock = InStock\<rparr>,
                 \<lparr>pharmacyId = 22, info_price = 10, info_stock = LowStock\<rparr>]"
    by simp
  with r2 have b: "\<exists>st'. deleteFromGlobalInventory exampleStorage 21 ''Paracetamol'' = Inr st' \<and>
      getPharmaciesForMedicine st' ''Paracetamol'' =
        Entries [\<lparr>pharmacyId = 1001, info_price = 40, info_stock = InStock\<rparr>,
                 \<lparr>pharmacyId = 22, info_price = 10, info_stock = LowStock\<rparr>]"
    by (intro exI [of _ st2]) simp
  from own old a example_lookup b show ?thesis by (intro conjI)
qed

text \<open>
  C8. \<open>updateStockStatusInGlobalInventory\<close> overwrites the stock of the matching record
  alone, and leaves the storage as it was when there is none, for every medicine whose
  lower-cased name is not an inherited property name (\<open>updateStockStatus_plain\<close>,
  \<open>updateStockStatus_all_records\<close>). For the medicine name \<open>constructor\<close> on the empty
  storage the call is not a silent no-op: the key is absent, yet
  \<open>globalInventory["constructor"]\<close> is the inherited function \<open>Object\<close>, the guard of
  line 62 is passed, and line 63 throws.
\<close>

theorem updateStockStatus_inherited_key_throws:
  "getGlobalInventory emptyStorage (toLowerCase ''constructor'') = None \<and>
   updateStockStatusInGlobalInventory emptyStorage 1 ''constructor'' InStock = Inl TypeError"
  by (simp add: updateStockStatusInGlobalInventory_def getProperty_def Let_def
      getGlobalInventory_def emptyStorage_def toLowerCase_constructor objectPrototypeKeys_def)

text \<open>
  On the example storage the operation behaves as the specification says: the record
  of an id is changed in place, and an id or a medicine without a record leaves the
  storage as it was.
\<close>

lemma updateStockStatus_examples:
  "(\<exists>st'. updateStockStatusInGlobalInventory exampleStorage 22 ''Paracetamol'' OutOfStock = Inr st' \<and>
      getPharmaciesForMedicine st' ''Paracetamol'' =
        Entries [\<lparr>pharmacyId = 21, info_price = 50, info_stock = InStock\<rparr>,
                 \<lparr>pharmacyId = 1001, info_price = 40, info_stock = InStock\<rparr>,
                 \<lparr>pharmacyId = 22, info_price = 10, info_stock = OutOfStock\<rparr>]) \<and>
   updateStockStatusInGlobalInventory exampleStorage 99 ''Paracetamol'' OutOfStock =
     Inr exampleStorage \<and>
   updateStockStatusInGlobalInventory exampleStorage 21 ''Aspirin'' OutOfStock =
     Inr exampleStorage"
proof -
  have p: "getGlobalInventory exampleStorage (toLowerCase ''Paracetamol'') =
      Some [\<lparr>pharmacyId = 21, info_price = 50, info_stock = InStock\<rparr>,
            \<lparr>pharmacyId = 1001, info_price = 40, info_stock = InStock\<rparr>,
            \<lparr>pharmacyId = 22, info_price = 10, info_stock = LowStock\<rparr>]"
    by (simp add: exampleStorage_inventory exampleInventory_def toLowerCase_Paracetamol)
  have a: "getGlobalInventory exampleStorage (toLowerCase ''Aspirin'') = None"
    by (simp add: exampleStorage_inventory exampleInventory_def toLowerCase_Aspirin)
  have "toLowerCase ''Aspirin'' \<notin> set objectPrototypeKeys"
    by (simp add: toLowerCase_Aspirin objectPrototypeKeys_def)
  with p a show ?thesis
    by (simp add: updateStock_Inr lookup_Entries getGlobalInventory_save
        toLowerCase_Paracetamol)
qed

lemma updateGlobalInventory_examples:
  "(\<exists>st'. updateGlobalInventory exampleStorage 21 [exampleItem] = Inr st' \<and>
      getPharmaciesForMedicine st' ''Paracetamol'' =
        Entries [\<lparr>pharmacyId = 21, info_price = 45, info_stock = InStock\<rparr>,
                 \<lparr>pharmacyId = 1001, info_price = 40, info_stock = InStock\<rparr>,
                 \<lparr>pharmacyId = 22, info_price = 10, info_stock = LowStock\<rparr>]) \<and>
   (\<exists>st'. updateGlobalInventory exampleStorage 30 [exampleItem] = Inr st' \<and>
      getPharmaciesForMedicine st' ''Paracetamol'' =
        Entries [\<lparr>pharmacyId = 21, info_price = 50, info_stock = InStock\<rparr>,
                 \<lparr>pharmacyId = 1001, info_price = 40, info_stock = InStock\<rparr>,
                 \<lparr>pharmacyId = 22, info_price = 10, info_stock = LowStock\<rparr>,
                 \<lparr>pharmacyId = 30, info_price = 45, info_stock = InStock\<rparr>])"
proof -
  have p: "getGlobalInventory exampleStorage (toLowerCase ''Paracetamol'') =
      Some [\<lparr>pharmacyId = 21, info_price = 50, info_stock = InStock\<rparr>,
            \<lparr>pharmacyId = 1001, info_price = 40, info_stock = InStock\<rparr>,
            \<lparr>pharmacyId = 22, info_price = 10, info_stock = LowStock\<rparr>]"
    by (simp add: exampleStorage_inventory exampleInventory_def toLowerCase_Paracetamol)
  then show ?thesis
    by (simp add: updateGlobalInventory_def upsertItem_def getProperty_def Let_def
        upsertEntries_def exampleItem_def lookup_Entries getGlobalInventory_save
        toLowerCase_Paracetamol)
qed

section \<open>Helper lemmas: the pharmacy directory\<close>

lemma find_append_cases:
  "find P (xs @ ys) = (case find P xs of None \<Rightarrow> find P ys | Some x \<Rightarrow> Some x)"
  by (induction xs) auto

lemma baseOf_base: "baseOf (p :: PharmacyBase) = p"
  by (cases p) (simp add: baseOf_def mkBase_def)

lemma baseOf_fields:
  "ident (baseOf p) = ident p" "name (baseOf p) = name p" "address (baseOf p) = address p"
  "phone (baseOf p) = phone p" "lat (baseOf p) = lat p" "lon (baseOf p) = lon p"
  by (simp_all add: baseOf_def mkBase_def)

lemma getCombinedPharmacies_eq:
  "getCombinedPharmacies st =
     VERIFIED_PHARMACIES_IN_BANGALORE @
     map baseOf (filter (\<lambda>p. ident p \<notin> ident ` set VERIFIED_PHARMACIES_IN_BANGALORE)
       (getDynamicPharmacies st))"
proof -
  have "map baseOf VERIFIED_PHARMACIES_IN_BANGALORE = VERIFIED_PHARMACIES_IN_BANGALORE"
    by (simp add: baseOf_base map_idI)
  then show ?thesis by (simp add: getCombinedPharmacies_def)
qed

lemma getDynamicPharmacies_save: "getDynamicPharmacies (saveDynamicPharmacies st ps) = ps"
  by (simp add: getDynamicPharmacies_def saveDynamicPharmacies_def)

lemma maxId_Max:
  "maxId dyn =
     Max (insert 1000 (ident ` set VERIFIED_PHARMACIES_IN_BANGALORE \<union> ident ` set dyn))"
proof -
  have "maxId dyn =
      Max (set (1000 # (map ident dyn @ map ident VERIFIED_PHARMACIES_IN_BANGALORE)))"
    unfolding maxId_def by (rule Max.set_eq_fold [symmetric])
  also have "set (1000 # (map ident dyn @ map ident VERIFIED_PHARMACIES_IN_BANGALORE)) =
      insert 1000 (ident ` set VERIFIED_PHARMACIES_IN_BANGALORE \<union> ident ` set dyn)"
    by auto
  finally show ?thesis .
qed

lemma maxId_bounds:
  "1000 \<le> maxId dyn"
  "p \<in> set dyn \<Longrightarrow> ident p \<le> maxId dyn"
  "q \<in> set VERIFIED_PHARMACIES_IN_BANGALORE \<Longrightarrow> ident q \<le> maxId dyn"
  unfolding maxId_Max by (auto intro!: Max_ge)

lemma maxId_fresh:
  "maxId dyn + 1 \<notin> ident ` set dyn"
  "maxId dyn + 1 \<notin> ident ` set VERIFIED_PHARMACIES_IN_BANGALORE"
  using maxId_bounds(2) [of _ dyn] maxId_bounds(3) [of _ dyn] by fastforce+

lemma combined_after_append:
  assumes "ident new \<notin> ident ` set VERIFIED_PHARMACIES_IN_BANGALORE"
  shows "getCombinedPharmacies (saveDynamicPharmacies st (getDynamicPharmacies st @ [new])) =
     getCombinedPharmacies st @ [baseOf new]"
  using assms by (simp add: getCombinedPharmacies_eq getDynamicPharmacies_save)

lemma registerOrGet_found:
  assumes "find (\<lambda>p. toLowerCase (name p) = toLowerCase (owner_name d))
      (getCombinedPharmacies st) = Some e"
  shows "registerOrGetPharmacy st d loc = (e, st)"
  using assms by (simp add: registerOrGetPharmacy_def)

lemma registerOrGet_new:
  assumes "find (\<lambda>p. toLowerCase (name p) = toLowerCase (owner_name d))
      (getCombinedPharmacies st) = None"
  shows "registerOrGetPharmacy st d loc =
     (mkBase (maxId (getDynamicPharmacies st) + 1) (owner_name d) (owner_address d)
        (owner_phone d) (lat loc) (lon loc),
      saveDynamicPharmacies st (getDynamicPharmacies st @
        [\<lparr>lat = lat loc, lon = lon loc, ident = maxId (getDynamicPharmacies st) + 1,
          name = owner_name d, address = owner_address d, phone = owner_phone d,
          distance = 0, price = 0, priceUnit = [], stock = OutOfStock,
          isBestOption = False\<rparr>]))"
  using assms by (simp add: registerOrGetPharmacy_def Let_def baseOf_def)

lemma registerOrGet_again:
  assumes same: "toLowerCase (owner_name d') = toLowerCase (owner_name d)"
  shows "registerOrGetPharmacy (snd (registerOrGetPharmacy st d loc)) d' loc' =
     (fst (registerOrGetPharmacy st d loc), snd (registerOrGetPharmacy st d loc))"
proof (cases "find (\<lambda>p. toLowerCase (name p) = toLowerCase (owner_name d))
      (getCombinedPharmacies st)")
  case (Some e)
  from registerOrGet_found [OF Some] have r: "registerOrGetPharmacy st d loc = (e, st)" .
  from Some same have "find (\<lambda>p. toLowerCase (name p) = toLowerCase (owner_name d'))
      (getCombinedPharmacies st) = Some e" by simp
  from registerOrGet_found [OF this] r show ?thesis by simp
next
  case None
  let ?new = "\<lparr>lat = lat loc, lon = lon loc, ident = maxId (getDynamicPharmacies st) + 1,
          name = owner_name d, address = owner_address d, phone = owner_phone d,
          distance = 0, price = 0, priceUnit = [], stock = OutOfStock,
          isBestOption = False\<rparr>"
  let ?st1 = "saveDynamicPharmacies st (getDynamicPharmacies st @ [?new])"
  let ?p = "mkBase (maxId (getDynamicPharmacies st) + 1) (owner_name d) (owner_address d)
        (owner_phone d) (lat loc) (lon loc)"
  from registerOrGet_new [OF None] have r: "registerOrGetPharmacy st d loc = (?p, ?st1)" .
  have b: "baseOf ?new = ?p" by (simp add: baseOf_def)
  have "ident ?new \<notin> ident ` set VERIFIED_PHARMACIES_IN_BANGALORE"
    using maxId_fresh(2) [of "getDynamicPharmacies st"] by simp
  from combined_after_append [OF this]
  have c: "getCombinedPharmacies ?st1 = getCombinedPharmacies st @ [?p]" by (simp only: b)
  have "find (\<lambda>p. toLowerCase (name p) = toLowerCase (owner_name d'))
      (getCombinedPharmacies ?st1) = Some ?p"
    unfolding c find_append_cases using None same by (simp add: mkBase_def)
  from registerOrGet_found [OF this] r show ?thesis by simp
qed

lemma example_names:
  "map name (getCombinedPharmacies exampleStorage) =
     [''Apollo Pharmacy'', ''Medplus Pharmacy'', ''Sri Maruthi Pharma'', ''HealthFirst Pharmacy'',
      ''Apollo Pharmacy'', ''Sri Sai Medical & General Stores'', ''MedPlus Pharmacy'',
      ''Jan Aushadhi Kendra'', ''Apollo Pharmacy'', ''Medplus Pharmacy'', ''Dava Discount'',
      ''Apollo Pharmacy - BEML Layout'', ''Apollo Pharmacy'', ''Wellness Forever'',
      ''MedPlus Pharmacy'', ''Sri Guru Medicals'', ''Vivek Pharma'',
      ''Apollo Pharmacy - Jayanagar'', ''Wellness Forever - Koramangala'',
      ''MedPlus Pharmacy - Indiranagar'', ''Corner Chemist'']"
  by (simp add: getCombinedPharmacies_def getDynamicPharmacies_def exampleStorage_def
      examplePharmacy_def VERIFIED_PHARMACIES_IN_BANGALORE_def mkBase_def baseOf_def)

lemma example_names_lower:
  "map toLowerCase
     [''Apollo Pharmacy'', ''Medplus Pharmacy'', ''Sri Maruthi Pharma'', ''HealthFirst Pharmacy'',
      ''Apollo Pharmacy'', ''Sri Sai Medical & General Stores'', ''MedPlus Pharmacy'',
      ''Jan Aushadhi Kendra'', ''Apollo Pharmacy'', ''Medplus Pharmacy'', ''Dava Discount'',
      ''Apollo Pharmacy - BEML Layout'', ''Apollo Pharmacy'', ''Wellness Forever'',
      ''MedPlus Pharmacy'', ''Sri Guru Medicals'', ''Vivek Pharma'',
      ''Apollo Pharmacy - Jayanagar'', ''Wellness Forever - Koramangala'',
      ''MedPlus Pharmacy - Indiranagar'', ''Corner Chemist''] =
     [''apollo pharmacy'', ''medplus pharmacy'', ''sri maruthi pharma'', ''healthfirst pharmacy'',
      ''apollo pharmacy'', ''sri sai medical & general stores'', ''medplus pharmacy'',
      ''jan aushadhi kendra'', ''apollo pharmacy'', ''medplus pharmacy'', ''dava discount'',
      ''apollo pharmacy - beml layout'', ''apollo pharmacy'', ''wellness forever'',
      ''medplus pharmacy'', ''sri guru medicals'', ''vivek pharma'',
      ''apollo pharmacy - jayanagar'', ''wellness forever - koramangala'',
      ''medplus pharmacy - indiranagar'', ''corner chemist'']"
  by code_simp

lemma toLowerCase_owners:
  "toLowerCase ''APOLLO PHARMACY'' = ''apollo pharmacy''"
  "toLowerCase ''Apollo Pharmacy'' = ''apollo pharmacy''"
  "toLowerCase ''New Chemist'' = ''new chemist''"
  "toLowerCase ''NEW CHEMIST'' = ''new chemist''"
  by code_simp+

lemma example_no_match:
  "\<forall>p\<in>set (getCombinedPharmacies exampleStorage).
     toLowerCase (name p) \<noteq> toLowerCase (owner_name newOwner)"
proof
  fix p
  assume "p \<in> set (getCombinedPharmacies exampleStorage)"
  then have "toLowerCase (name p) \<in>
      set (map toLowerCase (map name (getCombinedPharmacies exampleStorage)))"
    by simp
  then show "toLowerCase (name p) \<noteq> toLowerCase (owner_name newOwner)"
    unfolding example_names example_names_lower
    by (auto simp: newOwner_def toLowerCase_owners)
qed

lemma example_apollo:
  "find (\<lambda>p. toLowerCase (name p) = toLowerCase (owner_name apolloOwner))
     (getCombinedPharmacies exampleStorage) =
   Some (mkBase 21 ''Apollo Pharmacy'' ''Mysore Road, Kengeri Satellite Town''
     ''080-2848-1122'' 12.9189 77.4856)"
proof -
  have "toLowerCase (name (mkBase 21 ''Apollo Pharmacy'' ''Mysore Road, Kengeri Satellite Town''
     ''080-2848-1122'' 12.9189 77.4856)) = toLowerCase (owner_name apolloOwner)"
    by (simp add: mkBase_def apolloOwner_def toLowerCase_owners)
  then show ?thesis
    by (simp add: getCombinedPharmacies_eq VERIFIED_PHARMACIES_IN_BANGALORE_def)
qed

lemma example_maxId: "maxId (getDynamicPharmacies exampleStorage) = 1001"
  by (simp add: maxId_def getDynamicPharmacies_def exampleStorage_def
      examplePharmacy_def VERIFIED_PHARMACIES_IN_BANGALORE_def mkBase_def)

section \<open>Theorems about registration\<close>

text \<open>
  C5. The directory is the seed list followed by the stored pharmacies whose id is not a
  seed id; when no stored pharmacy has a seed id (so it is for the empty storage, and
  registration keeps it so), the directory holds every seed and every stored pharmacy.
  When the directory has a pharmacy whose name equals the owner's name after
  lower-casing, \<open>registerOrGetPharmacy\<close> returns the first such entry as it stands and
  the storage as it was: nothing is added to the stored pharmacies and no address, phone
  or location is updated. A second call under a name that differs at most in case returns
  the same pharmacy, so the same id, and leaves the storage of the first call as it is.
\<close>

theorem registerOrGetPharmacy_idempotent:
  "set (getCombinedPharmacies st) =
     set VERIFIED_PHARMACIES_IN_BANGALORE \<union>
     baseOf ` {q \<in> set (getDynamicPharmacies st).
                ident q \<notin> ident ` set VERIFIED_PHARMACIES_IN_BANGALORE} \<and>
   (\<forall>e. find (\<lambda>p. toLowerCase (name p) = toLowerCase (owner_name d))
          (getCombinedPharmacies st) = Some e \<longrightarrow>
        registerOrGetPharmacy st d loc = (e, st)) \<and>
   ((\<exists>p\<in>set (getCombinedPharmacies st). toLowerCase (name p) = toLowerCase (owner_name d)) \<longrightarrow>
      snd (registerOrGetPharmacy st d loc) = st \<and>
      fst (registerOrGetPharmacy st d loc) \<in> set (getCombinedPharmacies st) \<and>
      toLowerCase (name (fst (registerOrGetPharmacy st d loc))) = toLowerCase (owner_name d)) \<and>
   (toLowerCase (owner_name d') = toLowerCase (owner_name d) \<longrightarrow>
      registerOrGetPharmacy (snd (registerOrGetPharmacy st d loc)) d' loc' =
        (fst (registerOrGetPharmacy st d loc), snd (registerOrGetPharmacy st d loc))) \<and>
   ((\<forall>q\<in>set (getDynamicPharmacies st).
       ident q \<notin> ident ` set VERIFIED_PHARMACIES_IN_BANGALORE) \<longrightarrow>
      set (getCombinedPharmacies st) =
        set VERIFIED_PHARMACIES_IN_BANGALORE \<union> baseOf ` set (getDynamicPharmacies st) \<and>
      (\<forall>q\<in>set (getDynamicPharmacies (snd (registerOrGetPharmacy st d loc))).
         ident q \<notin> ident ` set VERIFIED_PHARMACIES_IN_BANGALORE))"
proof -
  have dir: "set (getCombinedPharmacies st) =
     set VERIFIED_PHARMACIES_IN_BANGALORE \<union>
     baseOf ` {q \<in> set (getDynamicPharmacies st).
                ident q \<notin> ident ` set VERIFIED_PHARMACIES_IN_BANGALORE}"
    by (auto simp: getCombinedPharmacies_eq)
  have ex: "snd (registerOrGetPharmacy st d loc) = st \<and>
      fst (registerOrGetPharmacy st d loc) \<in> set (getCombinedPharmacies st) \<and>
      toLowerCase (name (fst (registerOrGetPharmacy st d loc))) = toLowerCase (owner_name d)"
    if "\<exists>p\<in>set (getCombinedPharmacies st). toLowerCase (name p) = toLowerCase (owner_name d)"
  proof -
    from that have "find (\<lambda>p. toLowerCase (name p) = toLowerCase (owner_name d))
        (getCombinedPharmacies st) \<noteq> None"
      by (auto simp: find_None_iff)
    then obtain e where e: "find (\<lambda>p. toLowerCase (name p) = toLowerCase (owner_name d))
        (getCombinedPharmacies st) = Some e" by auto
    then have "e \<in> set (getCombinedPharmacies st)"
      "toLowerCase (name e) = toLowerCase (owner_name d)"
      by (auto simp: find_Some_iff)
    with registerOrGet_found [OF e] show ?thesis by simp
  qed
  have fnd: "\<forall>e. find (\<lambda>p. toLowerCase (name p) = toLowerCase (owner_name d))
          (getCombinedPharmacies st) = Some e \<longrightarrow>
        registerOrGetPharmacy st d loc = (e, st)"
    using registerOrGet_found [of d st _ loc] by blast
  have again: "toLowerCase (owner_name d') = toLowerCase (owner_name d) \<longrightarrow>
      registerOrGetPharmacy (snd (registerOrGetPharmacy st d loc)) d' loc' =
        (fst (registerOrGetPharmacy st d loc), snd (registerOrGetPharmacy st d loc))"
    using registerOrGet_again [of d' d st loc loc'] by blast
  have apart: "set (getCombinedPharmacies st) =
        set VERIFIED_PHARMACIES_IN_BANGALORE \<union> baseOf ` set (getDynamicPharmacies st) \<and>
      (\<forall>q\<in>set (getDynamicPharmacies (snd (registerOrGetPharmacy st d loc))).
         ident q \<notin> ident ` set VERIFIED_PHARMACIES_IN_BANGALORE)"
    if nc: "\<forall>q\<in>set (getDynamicPharmacies st).
       ident q \<notin> ident ` set VERIFIED_PHARMACIES_IN_BANGALORE"
  proof -
    from nc have "{q \<in> set (getDynamicPharmacies st).
        ident q \<notin> ident ` set VERIFIED_PHARMACIES_IN_BANGALORE} = set (getDynamicPharmacies st)"
      by blast
    with dir have all: "set (getCombinedPharmacies st) =
        set VERIFIED_PHARMACIES_IN_BANGALORE \<union> baseOf ` set (getDynamicPharmacies st)"
      by simp
    have "\<forall>q\<in>set (getDynamicPharmacies (snd (registerOrGetPharmacy st d loc))).
         ident q \<notin> ident ` set VERIFIED_PHARMACIES_IN_BANGALORE"
    proof (cases "find (\<lambda>p. toLowerCase (name p) = toLowerCase (owner_name d))
        (getCombinedPharmacies st)")
      case (Some e)
      from registerOrGet_found [OF Some] nc show ?thesis by simp
    next
      case None
      from registerOrGet_new [OF None] nc maxId_fresh(2) [of "getDynamicPharmacies st"]
      show ?thesis by (simp add: getDynamicPharmacies_save)
    qed
    with all show ?thesis by (rule conjI)
  qed
  show ?thesis
    apply (intro conjI)
        apply (rule dir)
       apply (rule fnd)
      apply (intro impI)
      apply (erule ex)
     apply (rule again)
    apply (intro impI)
    apply (erule apart)
    done
qed

theorem registerOrGetPharmacy_idempotent_witness:
  "registerOrGetPharmacy exampleStorage apolloOwner otherLocation =
     (mkBase 21 ''Apollo Pharmacy'' ''Mysore Road, Kengeri Satellite Town''
        ''080-2848-1122'' 12.9189 77.4856, exampleStorage) \<and>
   toLowerCase (owner_name newOwnerAgain) = toLowerCase (owner_name newOwner) \<and>
   registerOrGetPharmacy (snd (registerOrGetPharmacy exampleStorage newOwner newLocation))
       newOwnerAgain otherLocation =
     (fst (registerOrGetPharmacy exampleStorage newOwner newLocation),
      snd (registerOrGetPharmacy exampleStorage newOwner newLocation))"
proof -
  have same: "toLowerCase (owner_name newOwnerAgain) = toLowerCase (owner_name newOwner)"
    by (simp add: newOwnerAgain_def newOwner_def toLowerCase_owners)
  note t1 = registerOrGetPharmacy_idempotent
      [of exampleStorage apolloOwner otherLocation apolloOwner otherLocation]
  note t2 = registerOrGetPharmacy_idempotent
      [of exampleStorage newOwner newLocation newOwnerAgain otherLocation]
  from t1 have "\<forall>e. find (\<lambda>p. toLowerCase (name p) = toLowerCase (owner_name apolloOwner))
          (getCombinedPharmacies exampleStorage) = Some e \<longrightarrow>
        registerOrGetPharmacy exampleStorage apolloOwner otherLocation = (e, exampleStorage)"
    by (elim conjE)
  with example_apollo have a: "registerOrGetPharmacy exampleStorage apolloOwner otherLocation =
     (mkBase 21 ''Apollo Pharmacy'' ''Mysore Road, Kengeri Satellite Town''
        ''080-2848-1122'' 12.9189 77.4856, exampleStorage)"
    by (simp only: simp_thms)
  from t2 have "toLowerCase (owner_name newOwnerAgain) = toLowerCase (owner_name newOwner) \<longrightarrow>
      registerOrGetPharmacy (snd (registerOrGetPharmacy exampleStorage newOwner newLocation))
          newOwnerAgain otherLocation =
        (fst (registerOrGetPharmacy exampleStorage newOwner newLocation),
         snd (registerOrGetPharmacy exampleStorage newOwner newLocation))"
    by (elim conjE)
  with same have b: "registerOrGetPharmacy
        (snd (registerOrGetPharmacy exampleStorage newOwner newLocation))
        newOwnerAgain otherLocation =
      (fst (registerOrGetPharmacy exampleStorage newOwner newLocation),
       snd (registerOrGetPharmacy exampleStorage newOwner newLocation))"
    by (simp only: simp_thms)
  from a same b show ?thesis by (intro conjI)
qed

text \<open>
  C6. When no pharmacy of the directory has the owner's name after lower-casing,
  \<open>registerOrGetPharmacy\<close> returns a new pharmacy whose id is one more than the maximum
  of the seed ids, the stored ids and 1000, with the owner's name, address and phone and
  the given coordinates. The stored list of pharmacies is replaced by the old list with
  the new pharmacy appended; the inventory is untouched; the new id is not an id of the
  seed list or of the stored list, and the directory grows by the new pharmacy at its end.
\<close>

theorem registerOrGetPharmacy_creates:
  assumes "\<forall>p\<in>set (getCombinedPharmacies st).
      toLowerCase (name p) \<noteq> toLowerCase (owner_name d)"
  shows "(let newId = Max (insert 1000 (ident ` set VERIFIED_PHARMACIES_IN_BANGALORE \<union>
                        ident ` set (getDynamicPharmacies st))) + 1;
              p = fst (registerOrGetPharmacy st d loc);
              st' = snd (registerOrGetPharmacy st d loc)
          in p = mkBase newId (owner_name d) (owner_address d) (owner_phone d) (lat loc) (lon loc) \<and>
             item_dynamicPharmacies st' =
               Some (getDynamicPharmacies st @
                 [\<lparr>lat = lat loc, lon = lon loc, ident = newId, name = owner_name d,
                   address = owner_address d, phone = owner_phone d, distance = 0, price = 0,
                   priceUnit = [], stock = OutOfStock, isBestOption = False\<rparr>]) \<and>
             item_globalPharmacyInventory st' = item_globalPharmacyInventory st \<and>
             newId \<notin> ident ` set (getDynamicPharmacies st) \<and>
             newId \<notin> ident ` set VERIFIED_PHARMACIES_IN_BANGALORE \<and>
             1000 < newId \<and>
             getCombinedPharmacies st' = getCombinedPharmacies st @ [p])"
proof -
  let ?new = "\<lparr>lat = lat loc, lon = lon loc, ident = maxId (getDynamicPharmacies st) + 1,
          name = owner_name d, address = owner_address d, phone = owner_phone d,
          distance = 0, price = 0, priceUnit = [], stock = OutOfStock,
          isBestOption = False\<rparr>"
  let ?p = "mkBase (maxId (getDynamicPharmacies st) + 1) (owner_name d) (owner_address d)
        (owner_phone d) (lat loc) (lon loc)"
  from assms have "find (\<lambda>p. toLowerCase (name p) = toLowerCase (owner_name d))
      (getCombinedPharmacies st) = None"
    by (simp add: find_None_iff)
  from registerOrGet_new [OF this]
  have r: "registerOrGetPharmacy st d loc =
      (?p, saveDynamicPharmacies st (getDynamicPharmacies st @ [?new]))" .
  have b: "baseOf ?new = ?p" by (simp add: baseOf_def)
  have "ident ?new \<notin> ident ` set VERIFIED_PHARMACIES_IN_BANGALORE"
    using maxId_fresh(2) [of "getDynamicPharmacies st"] by simp
  from combined_after_append [OF this]
  have c: "getCombinedPharmacies (saveDynamicPharmacies st (getDynamicPharmacies st @ [?new])) =
      getCombinedPharmacies st @ [?p]" by (simp only: b)
  have big: "1000 < maxId (getDynamicPharmacies st) + 1"
    using maxId_bounds(1) [of "getDynamicPharmacies st"] by simp
  show ?thesis
    unfolding Let_def maxId_Max [symmetric] r fst_conv snd_conv c
    using maxId_fresh [of "getDynamicPharmacies st"] big
    by (simp add: saveDynamicPharmacies_def)
qed

theorem registerOrGetPharmacy_creates_witness:
  "find (\<lambda>p. toLowerCase (name p) = toLowerCase (owner_name newOwner))
     (getCombinedPharmacies exampleStorage) = None \<and>
   fst (registerOrGetPharmacy exampleStorage newOwner newLocation) =
     mkBase 1002 ''New Chemist'' ''MG Road'' ''080-1111-2222'' 12.97 77.59 \<and>
   map ident (getDynamicPharmacies (snd (registerOrGetPharmacy exampleStorage newOwner newLocation))) =
     [1001, 1002] \<and>
   length (getCombinedPharmacies (snd (registerOrGetPharmacy exampleStorage newOwner newLocation))) =
     22"
proof -
  have none: "find (\<lambda>p. toLowerCase (name p) = toLowerCase (owner_name newOwner))
     (getCombinedPharmacies exampleStorage) = None"
    using example_no_match by (simp add: find_None_iff)
  have m: "Max (insert 1000 (ident ` set VERIFIED_PHARMACIES_IN_BANGALORE \<union>
      ident ` set (getDynamicPharmacies exampleStorage))) = 1001"
    using maxId_Max [of "getDynamicPharmacies exampleStorage"] example_maxId by simp
  have len: "length (getCombinedPharmacies exampleStorage) = 21"
    using arg_cong [OF example_names, of length] by simp
  have dyn: "getDynamicPharmacies exampleStorage = [examplePharmacy]"
    by (simp add: getDynamicPharmacies_def exampleStorage_def)
  note r = registerOrGetPharmacy_creates [OF example_no_match, of newLocation,
      unfolded Let_def m]
  from r have f: "fst (registerOrGetPharmacy exampleStorage newOwner newLocation) =
      mkBase (1001 + 1) (owner_name newOwner) (owner_address newOwner) (owner_phone newOwner)
        (lat newLocation) (lon newLocation)"
    by (rule conjunct1)
  from r have d: "getDynamicPharmacies
      (snd (registerOrGetPharmacy exampleStorage newOwner newLocation)) =
      getDynamicPharmacies exampleStorage @
        [\<lparr>lat = lat newLocation, lon = lon newLocation, ident = 1001 + 1,
          name = owner_name newOwner, address = owner_address newOwner,
          phone = owner_phone newOwner, distance = 0, price = 0, priceUnit = [],
          stock = OutOfStock, isBestOption = False\<rparr>]"
    by (simp add: getDynamicPharmacies_def)
  from r have c: "getCombinedPharmacies
      (snd (registerOrGetPharmacy exampleStorage newOwner newLocation)) =
      getCombinedPharmacies exampleStorage @
        [fst (registerOrGetPharmacy exampleStorage newOwner newLocation)]"
    by simp
  show ?thesis
    unfolding c d dyn using none f
    by (simp add: len newOwner_def newLocation_def examplePharmacy_def)
qed


end
